theory Spec2Isabelle
  imports Complex_Main "HOL-Library.Multiset"
begin

section \<open>Data model (src/state/workspaceStore.ts, lines 5-48)\<close>

text \<open>
  A \<open>Date\<close> is modelled by its time value (milliseconds since the epoch). Every
  \<open>new Date()\<close> of an operation reads the clock; the reading taken at the \<open>n\<close>-th
  \<open>new Date()\<close> site of the operation (in textual order) is \<open>clk n\<close>, so two sites of
  one operation may see different instants.
\<close>

type_synonym time = int
type_synonym clock = "nat \<Rightarrow> time"

text \<open>
  Values produced by \<open>JSON.parse\<close>. Of a number the code only ever tests whether it is
  truthy, that is, different from zero.
\<close>

datatype json =
    JNull
  | JBool bool
  | JNum int
  | JStr string
  | JArr "json list"
  | JObj "(string \<times> json) list"

datatype status = Todo | InProgress | Done

record Card =
  card_id :: string
  card_title :: string
  card_description :: string
  card_columnId :: string
  card_createdAt :: time
  card_updatedAt :: time
  card_tags :: "string list"
  card_status :: status
  card_metadata :: "(string \<times> json) list"

record Column =
  col_id :: string
  col_title :: string
  col_cards :: "Card list"
  col_createdAt :: time
  col_updatedAt :: time

record Board =
  columns :: "Column list"

record Page =
  page_id :: string
  page_title :: string
  page_icon :: string
  page_board :: Board
  page_createdAt :: time
  page_updatedAt :: time

record Workspace =
  ws_title :: string
  pages :: "Page list"
  activePageId :: "string option"
  ws_createdAt :: time
  ws_updatedAt :: time

record WorkspaceState =
  workspace :: Workspace
  selectedCardId :: "string option"

text \<open>
  \<open>Partial<Card>\<close>: every field of a card may be present (\<open>Some\<close>) or absent
  (\<open>None\<close>) in the updates object.
\<close>

record CardUpdates =
  u_id :: "string option"
  u_title :: "string option"
  u_description :: "string option"
  u_columnId :: "string option"
  u_createdAt :: "time option"
  u_updatedAt :: "time option"
  u_tags :: "string list option"
  u_status :: "status option"
  u_metadata :: "(string \<times> json) list option"

record MoveSource =
  src_pageId :: string
  src_columnId :: string
  src_cardId :: string

record MoveTarget =
  tgt_pageId :: string
  tgt_columnId :: string
  tgt_index :: "int option"

section \<open>Array primitives\<close>

text \<open>\<open>Array.prototype.findIndex\<close>; the result \<open>-1\<close> is \<open>None\<close>.\<close>

fun findIndex :: "('a \<Rightarrow> bool) \<Rightarrow> 'a list \<Rightarrow> nat option" where
  "findIndex P [] = None"
| "findIndex P (x # xs) = (if P x then Some 0 else map_option Suc (findIndex P xs))"

text \<open>
  \<open>Array.prototype.find\<close> is \<^const>\<open>List.find\<close>. The object it returns is then mutated
  in place: in the model, the first element that satisfies the predicate is replaced.
\<close>

fun modify_first :: "('a \<Rightarrow> bool) \<Rightarrow> ('a \<Rightarrow> 'a) \<Rightarrow> 'a list \<Rightarrow> 'a list" where
  "modify_first P f [] = []"
| "modify_first P f (x # xs) = (if P x then f x # xs else x # modify_first P f xs)"

text \<open>\<open>xs.splice(i, 1)\<close> for an index \<open>i\<close> that \<open>findIndex\<close> returned.\<close>

definition splice_remove :: "nat \<Rightarrow> 'a list \<Rightarrow> 'a list" where
  "splice_remove i xs = take i xs @ drop (Suc i) xs"

text \<open>
  \<open>xs.splice(start, 0, item)\<close>: a negative start counts from the end, and the start is
  clamped to the range \<open>0 .. xs.length\<close>. The start is an integer here: \<open>splice\<close>
  truncates a number that is not one before it uses it.
\<close>

definition splice_start :: "int \<Rightarrow> nat \<Rightarrow> nat" where
  "splice_start start len =
     (if start < 0 then nat (max (int len + start) 0) else nat (min start (int len)))"

definition splice_insert :: "int \<Rightarrow> 'a \<Rightarrow> 'a list \<Rightarrow> 'a list" where
  "splice_insert start item xs =
     (let k = splice_start start (length xs) in take k xs @ item # drop k xs)"

section \<open>The store (src/state/workspaceStore.ts, lines 78-399)\<close>

text \<open>
  \<open>generateId()\<close> combines \<open>Date.now()\<close> with \<open>Math.random()\<close>; its result is an input
  of the operations that call it.
\<close>

definition createDefaultWorkspace :: "string \<Rightarrow> string \<Rightarrow> string \<Rightarrow> clock \<Rightarrow> Workspace" where
  "createDefaultWorkspace g1 g2 g3 clk =
     (let pageId = ''page-'' @ g1;
          columnId = ''col-'' @ g2;
          cardId = ''card-'' @ g3
      in \<lparr> ws_title = ''My Workspace'',
           pages =
             [\<lparr> page_id = pageId,
                page_title = ''Welcome'',
                page_icon = [CHR 0xC3, CHR 0xB0, CHR 0xC5, CHR 0xB8, CHR 0xE2, CHR 0x80, CHR 0x98,
                             CHR 0xE2, CHR 0x80, CHR 0xB9],
                page_board =
                  \<lparr> columns =
                      [\<lparr> col_id = columnId,
                         col_title = ''To Do'',
                         col_cards =
                           [\<lparr> card_id = cardId,
                              card_title = ''Welcome to your workspace'',
                              card_description =
                                ''This is your first card. You can edit it, move it, or delete it.'',
                              card_columnId = columnId,
                              card_createdAt = clk 0,
                              card_updatedAt = clk 1,
                              card_tags = [''welcome'', ''getting-started''],
                              card_status = Todo,
                              card_metadata = [] \<rparr>],
                         col_createdAt = clk 2,
                         col_updatedAt = clk 3 \<rparr>] \<rparr>,
                page_createdAt = clk 4,
                page_updatedAt = clk 5 \<rparr>],
           activePageId = Some pageId,
           ws_createdAt = clk 6,
           ws_updatedAt = clk 7 \<rparr>)"

definition initialState :: "string \<Rightarrow> string \<Rightarrow> string \<Rightarrow> clock \<Rightarrow> WorkspaceState" where
  "initialState g1 g2 g3 clk =
     \<lparr> workspace = createDefaultWorkspace g1 g2 g3 clk, selectedCardId = None \<rparr>"

text \<open>The lookups \<open>pages.find(p => p.id === pageId)\<close> and its analogues.\<close>

definition findPage :: "string \<Rightarrow> Workspace \<Rightarrow> Page option" where
  "findPage pageId ws = find (\<lambda>p. page_id p = pageId) (pages ws)"

definition findColumnIn :: "string \<Rightarrow> Page \<Rightarrow> Column option" where
  "findColumnIn columnId page = find (\<lambda>col. col_id col = columnId) (columns (page_board page))"

definition findCardIn :: "string \<Rightarrow> Column \<Rightarrow> Card option" where
  "findCardIn cardId column = find (\<lambda>c. card_id c = cardId) (col_cards column)"

text \<open>In-place mutation of the object a lookup returned.\<close>

definition onPage :: "string \<Rightarrow> (Page \<Rightarrow> Page) \<Rightarrow> Workspace \<Rightarrow> Workspace" where
  "onPage pageId f ws = ws\<lparr>pages := modify_first (\<lambda>p. page_id p = pageId) f (pages ws)\<rparr>"

definition onColumn :: "string \<Rightarrow> (Column \<Rightarrow> Column) \<Rightarrow> Page \<Rightarrow> Page" where
  "onColumn columnId f page =
     page\<lparr>page_board :=
       \<lparr>columns = modify_first (\<lambda>col. col_id col = columnId) f (columns (page_board page))\<rparr>\<rparr>"

definition onCard :: "string \<Rightarrow> (Card \<Rightarrow> Card) \<Rightarrow> Column \<Rightarrow> Column" where
  "onCard cardId f column =
     column\<lparr>col_cards := modify_first (\<lambda>c. card_id c = cardId) f (col_cards column)\<rparr>"

definition setWorkspaceTitle :: "string \<Rightarrow> clock \<Rightarrow> WorkspaceState \<Rightarrow> WorkspaceState" where
  "setWorkspaceTitle title clk st =
     st\<lparr>workspace := (workspace st)\<lparr>ws_title := title, ws_updatedAt := clk 0\<rparr>\<rparr>"

definition addPage :: "string \<Rightarrow> string \<Rightarrow> string \<Rightarrow> clock \<Rightarrow> WorkspaceState \<Rightarrow> WorkspaceState" where
  "addPage title icon g clk st =
     (let newPage = \<lparr> page_id = ''page-'' @ g,
                      page_title = title,
                      page_icon = icon,
                      page_board = \<lparr> columns = [] \<rparr>,
                      page_createdAt = clk 0,
                      page_updatedAt = clk 1 \<rparr>
      in st\<lparr>workspace := (workspace st)
             \<lparr>pages := pages (workspace st) @ [newPage],
              activePageId := Some (page_id newPage),
              ws_updatedAt := clk 2\<rparr>\<rparr>)"

text \<open>
  \<open>state.workspace.pages[0]?.id || null\<close>: \<open>null\<close> when there is no first page, and
  also when the first page's id is the empty string, which is falsy.
\<close>

definition firstPageIdOrNull :: "Page list \<Rightarrow> string option" where
  "firstPageIdOrNull ps =
     (case ps of
        [] \<Rightarrow> None
      | p # _ \<Rightarrow> (if page_id p = [] then None else Some (page_id p)))"

definition removePage :: "string \<Rightarrow> clock \<Rightarrow> WorkspaceState \<Rightarrow> WorkspaceState" where
  "removePage pageId clk st =
     (let ws = workspace st;
          ps = filter (\<lambda>page. page_id page \<noteq> pageId) (pages ws);
          active = (if activePageId ws = Some pageId then firstPageIdOrNull ps
                    else activePageId ws)
      in st\<lparr>workspace := ws\<lparr>pages := ps, activePageId := active, ws_updatedAt := clk 0\<rparr>\<rparr>)"

definition renamePage :: "string \<Rightarrow> string \<Rightarrow> clock \<Rightarrow> WorkspaceState \<Rightarrow> WorkspaceState" where
  "renamePage pageId title clk st =
     (case findPage pageId (workspace st) of
        None \<Rightarrow> st
      | Some page \<Rightarrow>
          st\<lparr>workspace :=
            (onPage pageId (\<lambda>p. p\<lparr>page_title := title, page_updatedAt := clk 0\<rparr>) (workspace st))
              \<lparr>ws_updatedAt := clk 1\<rparr>\<rparr>)"

definition setActivePage :: "string \<Rightarrow> clock \<Rightarrow> WorkspaceState \<Rightarrow> WorkspaceState" where
  "setActivePage pageId clk st =
     st\<lparr>workspace := (workspace st)\<lparr>activePageId := Some pageId, ws_updatedAt := clk 0\<rparr>\<rparr>"

definition updatePageIcon :: "string \<Rightarrow> string \<Rightarrow> clock \<Rightarrow> WorkspaceState \<Rightarrow> WorkspaceState" where
  "updatePageIcon pageId icon clk st =
     (case findPage pageId (workspace st) of
        None \<Rightarrow> st
      | Some page \<Rightarrow>
          st\<lparr>workspace :=
            (onPage pageId (\<lambda>p. p\<lparr>page_icon := icon, page_updatedAt := clk 0\<rparr>) (workspace st))
              \<lparr>ws_updatedAt := clk 1\<rparr>\<rparr>)"

definition addColumn :: "string \<Rightarrow> string \<Rightarrow> string \<Rightarrow> clock \<Rightarrow> WorkspaceState \<Rightarrow> WorkspaceState" where
  "addColumn pageId title g clk st =
     (case findPage pageId (workspace st) of
        None \<Rightarrow> st
      | Some page \<Rightarrow>
          (let newColumn = \<lparr> col_id = ''col-'' @ g,
                             col_title = title,
                             col_cards = [],
                             col_createdAt = clk 0,
                             col_updatedAt = clk 1 \<rparr>
           in st\<lparr>workspace :=
                (onPage pageId
                   (\<lambda>p. p\<lparr>page_board := \<lparr>columns = columns (page_board p) @ [newColumn]\<rparr>,
                          page_updatedAt := clk 2\<rparr>)
                   (workspace st))
                  \<lparr>ws_updatedAt := clk 3\<rparr>\<rparr>))"

definition removeColumn :: "string \<Rightarrow> string \<Rightarrow> clock \<Rightarrow> WorkspaceState \<Rightarrow> WorkspaceState" where
  "removeColumn pageId columnId clk st =
     (case findPage pageId (workspace st) of
        None \<Rightarrow> st
      | Some page \<Rightarrow>
          st\<lparr>workspace :=
            (onPage pageId
               (\<lambda>p. p\<lparr>page_board :=
                        \<lparr>columns = filter (\<lambda>col. col_id col \<noteq> columnId) (columns (page_board p))\<rparr>,
                      page_updatedAt := clk 0\<rparr>)
               (workspace st))
              \<lparr>ws_updatedAt := clk 1\<rparr>\<rparr>)"

definition renameColumn :: "string \<Rightarrow> string \<Rightarrow> string \<Rightarrow> clock \<Rightarrow> WorkspaceState \<Rightarrow> WorkspaceState" where
  "renameColumn pageId columnId title clk st =
     (case findPage pageId (workspace st) of
        None \<Rightarrow> st
      | Some page \<Rightarrow>
          (case findColumnIn columnId page of
             None \<Rightarrow> st
           | Some column \<Rightarrow>
               st\<lparr>workspace :=
                 (onPage pageId
                    (\<lambda>p. (onColumn columnId
                             (\<lambda>c. c\<lparr>col_title := title, col_updatedAt := clk 0\<rparr>) p)
                            \<lparr>page_updatedAt := clk 1\<rparr>)
                    (workspace st))
                   \<lparr>ws_updatedAt := clk 2\<rparr>\<rparr>))"

definition moveColumn :: "string \<Rightarrow> string \<Rightarrow> int \<Rightarrow> clock \<Rightarrow> WorkspaceState \<Rightarrow> WorkspaceState" where
  "moveColumn pageId columnId targetIndex clk st =
     (case findPage pageId (workspace st) of
        None \<Rightarrow> st
      | Some page \<Rightarrow>
          (case findIndex (\<lambda>col. col_id col = columnId) (columns (page_board page)) of
             None \<Rightarrow> st
           | Some currentIndex \<Rightarrow>
               st\<lparr>workspace :=
                 (onPage pageId
                    (\<lambda>p. p\<lparr>page_board :=
                             \<lparr>columns =
                                splice_insert targetIndex (columns (page_board p) ! currentIndex)
                                  (splice_remove currentIndex (columns (page_board p)))\<rparr>,
                           page_updatedAt := clk 0\<rparr>)
                    (workspace st))
                   \<lparr>ws_updatedAt := clk 1\<rparr>\<rparr>))"

definition addCard ::
  "string \<Rightarrow> string \<Rightarrow> string \<Rightarrow> string option \<Rightarrow> string \<Rightarrow> clock \<Rightarrow> WorkspaceState \<Rightarrow> WorkspaceState"
where
  "addCard pageId columnId title description g clk st =
     (case findPage pageId (workspace st) of
        None \<Rightarrow> st
      | Some page \<Rightarrow>
          (case findColumnIn columnId page of
             None \<Rightarrow> st
           | Some column \<Rightarrow>
               (let newCard = \<lparr> card_id = ''card-'' @ g,
                                card_title = title,
                                card_description = (case description of None \<Rightarrow> [] | Some d \<Rightarrow> d),
                                card_columnId = columnId,
                                card_createdAt = clk 0,
                                card_updatedAt = clk 1,
                                card_tags = [],
                                card_status = Todo,
                                card_metadata = [] \<rparr>
                in st\<lparr>workspace :=
                     (onPage pageId
                        (\<lambda>p. (onColumn columnId
                                 (\<lambda>c. c\<lparr>col_cards := col_cards c @ [newCard],
                                        col_updatedAt := clk 2\<rparr>) p)
                                \<lparr>page_updatedAt := clk 3\<rparr>)
                        (workspace st))
                       \<lparr>ws_updatedAt := clk 4\<rparr>\<rparr>)))"

definition removeCard :: "string \<Rightarrow> string \<Rightarrow> string \<Rightarrow> clock \<Rightarrow> WorkspaceState \<Rightarrow> WorkspaceState" where
  "removeCard pageId columnId cardId clk st =
     (case findPage pageId (workspace st) of
        None \<Rightarrow> st
      | Some page \<Rightarrow>
          (case findColumnIn columnId page of
             None \<Rightarrow> st
           | Some column \<Rightarrow>
               st\<lparr>workspace :=
                    (onPage pageId
                       (\<lambda>p. (onColumn columnId
                                (\<lambda>c. c\<lparr>col_cards := filter (\<lambda>card. card_id card \<noteq> cardId) (col_cards c),
                                       col_updatedAt := clk 0\<rparr>) p)
                               \<lparr>page_updatedAt := clk 1\<rparr>)
                       (workspace st))
                      \<lparr>ws_updatedAt := clk 2\<rparr>,
                  selectedCardId :=
                    (if selectedCardId st = Some cardId then None else selectedCardId st)\<rparr>))"

text \<open>
  \<open>Object.assign(card, updates, { updatedAt: new Date() })\<close>: every field present in
  \<open>updates\<close> overwrites the card's, and \<open>updatedAt\<close> comes from the last source.
\<close>

definition assignField :: "'a option \<Rightarrow> 'a \<Rightarrow> 'a" where
  "assignField u old = (case u of None \<Rightarrow> old | Some v \<Rightarrow> v)"

definition assignCard :: "Card \<Rightarrow> CardUpdates \<Rightarrow> time \<Rightarrow> Card" where
  "assignCard cardObj updates now =
     \<lparr> card_id = assignField (u_id updates) (card_id cardObj),
       card_title = assignField (u_title updates) (card_title cardObj),
       card_description = assignField (u_description updates) (card_description cardObj),
       card_columnId = assignField (u_columnId updates) (card_columnId cardObj),
       card_createdAt = assignField (u_createdAt updates) (card_createdAt cardObj),
       card_updatedAt = now,
       card_tags = assignField (u_tags updates) (card_tags cardObj),
       card_status = assignField (u_status updates) (card_status cardObj),
       card_metadata = assignField (u_metadata updates) (card_metadata cardObj) \<rparr>"

definition updateCard ::
  "string \<Rightarrow> string \<Rightarrow> string \<Rightarrow> CardUpdates \<Rightarrow> clock \<Rightarrow> WorkspaceState \<Rightarrow> WorkspaceState"
where
  "updateCard pageId columnId cardId updates clk st =
     (case findPage pageId (workspace st) of
        None \<Rightarrow> st
      | Some page \<Rightarrow>
          (case findColumnIn columnId page of
             None \<Rightarrow> st
           | Some column \<Rightarrow>
               (case findCardIn cardId column of
                  None \<Rightarrow> st
                | Some cardObj \<Rightarrow>
                    st\<lparr>workspace :=
                      (onPage pageId
                         (\<lambda>p. (onColumn columnId
                                  (\<lambda>c. (onCard cardId (\<lambda>k. assignCard k updates (clk 0)) c)
                                         \<lparr>col_updatedAt := clk 1\<rparr>) p)
                                 \<lparr>page_updatedAt := clk 2\<rparr>)
                         (workspace st))
                        \<lparr>ws_updatedAt := clk 3\<rparr>\<rparr>)))"

text \<open>
  \<open>moveCard\<close>, first phase (lines 323-337): find the card and remove it from its source
  column. The result is the workspace after the removal and the captured card
  (\<open>movedCard\<close>, \<open>None\<close> for \<open>null\<close>).
\<close>

definition removeFromSource :: "MoveSource \<Rightarrow> clock \<Rightarrow> Workspace \<Rightarrow> Workspace \<times> Card option" where
  "removeFromSource source clk ws =
     (case findPage (src_pageId source) ws of
        None \<Rightarrow> (ws, None)
      | Some sourcePage \<Rightarrow>
          (case findColumnIn (src_columnId source) sourcePage of
             None \<Rightarrow> (ws, None)
           | Some sourceColumn \<Rightarrow>
               (case findIndex (\<lambda>card. card_id card = src_cardId source) (col_cards sourceColumn) of
                  None \<Rightarrow> (ws, None)
                | Some cardIndex \<Rightarrow>
                    (onPage (src_pageId source)
                       (\<lambda>p. (onColumn (src_columnId source)
                                (\<lambda>c. c\<lparr>col_cards := splice_remove cardIndex (col_cards c),
                                       col_updatedAt := clk 0\<rparr>) p)
                               \<lparr>page_updatedAt := clk 1\<rparr>)
                       ws,
                     Some (col_cards sourceColumn ! cardIndex)))))"

text \<open>
  Second phase (lines 339-354): insert the captured card into the target column, looked
  up in the workspace as the first phase left it.
\<close>

definition addToTarget :: "Card \<Rightarrow> MoveTarget \<Rightarrow> clock \<Rightarrow> Workspace \<Rightarrow> Workspace" where
  "addToTarget movedCard target clk ws =
     (case findPage (tgt_pageId target) ws of
        None \<Rightarrow> ws
      | Some targetPage \<Rightarrow>
          (case findColumnIn (tgt_columnId target) targetPage of
             None \<Rightarrow> ws
           | Some targetColumn \<Rightarrow>
               (let moved = movedCard\<lparr>card_columnId := tgt_columnId target, card_updatedAt := clk 2\<rparr>;
                    insertIndex = (case tgt_index target of
                                     None \<Rightarrow> int (length (col_cards targetColumn))
                                   | Some i \<Rightarrow> i)
                in onPage (tgt_pageId target)
                     (\<lambda>p. (onColumn (tgt_columnId target)
                              (\<lambda>c. c\<lparr>col_cards := splice_insert insertIndex moved (col_cards c),
                                     col_updatedAt := clk 3\<rparr>) p)
                             \<lparr>page_updatedAt := clk 4\<rparr>)
                     ws)))"

definition moveCard :: "MoveSource \<Rightarrow> MoveTarget \<Rightarrow> clock \<Rightarrow> WorkspaceState \<Rightarrow> WorkspaceState" where
  "moveCard source target clk st =
     (let (ws1, movedCard) = removeFromSource source clk (workspace st);
          ws2 = (case movedCard of
                   None \<Rightarrow> ws1
                 | Some captured \<Rightarrow> addToTarget captured target clk ws1)
      in st\<lparr>workspace := ws2\<lparr>ws_updatedAt := clk 5\<rparr>\<rparr>)"

definition setSelectedCardId :: "string option \<Rightarrow> WorkspaceState \<Rightarrow> WorkspaceState" where
  "setSelectedCardId cardId st = st\<lparr>selectedCardId := cardId\<rparr>"

subsection \<open>Sequences of store operations\<close>

text \<open>
  A call of a store action. The result of \<open>generateId()\<close> and the clock readings are
  supplied with each call.
\<close>

datatype op =
    SetWorkspaceTitle string
  | AddPage string string
  | RemovePage string
  | RenamePage string string
  | SetActivePage string
  | UpdatePageIcon string string
  | AddColumn string string
  | RemoveColumn string string
  | RenameColumn string string string
  | MoveColumn string string int
  | AddCard string string string "string option"
  | RemoveCard string string string
  | UpdateCard string string string CardUpdates
  | MoveCard MoveSource MoveTarget
  | SetSelectedCardId "string option"

fun apply_op :: "op \<Rightarrow> string \<Rightarrow> clock \<Rightarrow> WorkspaceState \<Rightarrow> WorkspaceState" where
  "apply_op (SetWorkspaceTitle title) g clk st = setWorkspaceTitle title clk st"
| "apply_op (AddPage title icon) g clk st = addPage title icon g clk st"
| "apply_op (RemovePage pageId) g clk st = removePage pageId clk st"
| "apply_op (RenamePage pageId title) g clk st = renamePage pageId title clk st"
| "apply_op (SetActivePage pageId) g clk st = setActivePage pageId clk st"
| "apply_op (UpdatePageIcon pageId icon) g clk st = updatePageIcon pageId icon clk st"
| "apply_op (AddColumn pageId title) g clk st = addColumn pageId title g clk st"
| "apply_op (RemoveColumn pageId columnId) g clk st = removeColumn pageId columnId clk st"
| "apply_op (RenameColumn pageId columnId title) g clk st = renameColumn pageId columnId title clk st"
| "apply_op (MoveColumn pageId columnId targetIndex) g clk st =
     moveColumn pageId columnId targetIndex clk st"
| "apply_op (AddCard pageId columnId title description) g clk st =
     addCard pageId columnId title description g clk st"
| "apply_op (RemoveCard pageId columnId cardId) g clk st = removeCard pageId columnId cardId clk st"
| "apply_op (UpdateCard pageId columnId cardId updates) g clk st =
     updateCard pageId columnId cardId updates clk st"
| "apply_op (MoveCard source target) g clk st = moveCard source target clk st"
| "apply_op (SetSelectedCardId cardId) g clk st = setSelectedCardId cardId st"

text \<open>
  The states the store reaches from the default workspace by calls that satisfy
  \<open>allowed\<close>.
\<close>

inductive reachableVia :: "(op \<Rightarrow> bool) \<Rightarrow> WorkspaceState \<Rightarrow> bool"
  for allowed :: "op \<Rightarrow> bool"
where
  initial: "reachableVia allowed (initialState g1 g2 g3 clk)"
| step: "reachableVia allowed st \<Longrightarrow> allowed opn \<Longrightarrow> reachableVia allowed (apply_op opn g clk st)"

definition anyOp :: "op \<Rightarrow> bool" where
  "anyOp opn = True"

definition reachable :: "WorkspaceState \<Rightarrow> bool" where
  "reachable st = reachableVia anyOp st"

text \<open>A call that is not an \<open>updateCard\<close> whose updates carry another \<open>columnId\<close>.\<close>

fun keepsColumnId :: "op \<Rightarrow> bool" where
  "keepsColumnId (UpdateCard pageId columnId cardId updates) =
     (u_columnId updates = None \<or> u_columnId updates = Some columnId)"
| "keepsColumnId _ = True"

subsection \<open>Notions the properties speak of\<close>

text \<open>The cards reachable from a workspace, page by page and column by column.\<close>

definition allColumns :: "Page list \<Rightarrow> Column list" where
  "allColumns ps = concat (map (\<lambda>p. columns (page_board p)) ps)"

definition allCards :: "Page list \<Rightarrow> Card list" where
  "allCards ps = concat (map col_cards (allColumns ps))"

text \<open>Referential integrity: every card's \<open>columnId\<close> is the id of the column holding it.\<close>

definition columnIntegrity :: "Column \<Rightarrow> bool" where
  "columnIntegrity c = list_all (\<lambda>k. card_columnId k = col_id c) (col_cards c)"

definition pageIntegrity :: "Page \<Rightarrow> bool" where
  "pageIntegrity p = list_all columnIntegrity (columns (page_board p))"

definition refIntegrity :: "Workspace \<Rightarrow> bool" where
  "refIntegrity ws = list_all pageIntegrity (pages ws)"

text \<open>A clock that shows the same instant at every reading.\<close>

definition constClock :: "time \<Rightarrow> clock" where
  "constClock t n = t"

definition noUpdates :: CardUpdates where
  "noUpdates = \<lparr> u_id = None, u_title = None, u_description = None, u_columnId = None,
                 u_createdAt = None, u_updatedAt = None, u_tags = None, u_status = None,
                 u_metadata = None \<rparr>"

text \<open>The default workspace with ids \<open>page-p\<close>, \<open>col-c\<close>, \<open>card-k\<close>, created at time 0.\<close>

definition exampleState :: WorkspaceState where
  "exampleState = initialState ''p'' ''c'' ''k'' (constClock 0)"

text \<open>The same after \<open>addColumn(pageId, 'Doing')\<close>, which creates the column \<open>col-d\<close>.\<close>

definition exampleBoard :: WorkspaceState where
  "exampleBoard = addColumn ''page-p'' ''Doing'' ''d'' (constClock 1) exampleState"

text \<open>Then the card is moved to the end of the new column.\<close>

definition exampleMoved :: WorkspaceState where
  "exampleMoved =
     moveCard \<lparr>src_pageId = ''page-p'', src_columnId = ''col-c'', src_cardId = ''card-k''\<rparr>
       \<lparr>tgt_pageId = ''page-p'', tgt_columnId = ''col-d'', tgt_index = None\<rparr>
       (constClock 2) exampleBoard"

text \<open>The default workspace after \<open>addPage('Second', 's')\<close>, which creates the page \<open>page-q\<close>.\<close>

definition exampleTwoPages :: WorkspaceState where
  "exampleTwoPages = addPage ''Second'' ''s'' ''q'' (constClock 1) exampleState"

text \<open>
  The default workspace after \<open>updateCard(pageId, columnId, cardId, { columnId: 'col-z' })\<close>
  on its card.
\<close>

definition exampleDrift :: WorkspaceState where
  "exampleDrift =
     updateCard ''page-p'' ''col-c'' ''card-k'' (noUpdates\<lparr>u_columnId := Some ''col-z''\<rparr>)
       (constClock 1) exampleState"

section \<open>Export and import (src/services/exportImportService.ts)\<close>

subsection \<open>Analytics (lines 110-128)\<close>

text \<open>
  The counts are sums of array lengths, which JavaScript's numbers hold exactly (they are
  below \<open>2^53\<close>). \<open>completionRate\<close> is a double; a double is modelled by the rational
  number it denotes.
\<close>

text \<open>The number of binary digits of a natural number.\<close>

fun bitLength :: "nat \<Rightarrow> nat" where
  "bitLength n = (if n = 0 then 0 else Suc (bitLength (n div 2)))"

declare bitLength.simps [simp del]

text \<open>
  The binary exponent of the quotient of two positive integers: the \<open>e\<close> with
  \<open>2^e \<le> a / b < 2^(e + 1)\<close>. It is the difference \<open>d\<close> of the bit lengths when
  \<open>a / b \<ge> 2^d\<close>, and \<open>d - 1\<close> otherwise.
\<close>

definition quotientExponent :: "nat \<Rightarrow> nat \<Rightarrow> int" where
  "quotientExponent a b =
     (let d = int (bitLength a) - int (bitLength b)
      in if (if 0 \<le> d then b * 2 ^ nat d \<le> a else b \<le> a * 2 ^ nat (- d)) then d else d - 1)"

text \<open>The integer nearest to \<open>n / d\<close>; of two equally near ones, the even one.\<close>

definition roundHalfEven :: "nat \<Rightarrow> nat \<Rightarrow> nat" where
  "roundHalfEven n d =
     (let q = n div d; r = n mod d
      in if d < 2 * r \<or> (2 * r = d \<and> odd q) then q + 1 else q)"

text \<open>
  The operator \<open>/\<close> of line 119 on two integers that doubles hold exactly, the divisor
  not zero (the code divides only when \<open>totalCards > 0\<close>): IEEE 754 binary64 division,
  which is the quotient rounded to the nearest number with a significand of 53 bits, ties
  to even. The quotient is scaled by \<open>2^s\<close>, \<open>s = 52 - e\<close>, so that it lies between
  \<open>2^52\<close> and \<open>2^53\<close>, rounded to an integer and scaled back. A quotient of two such
  integers is between \<open>2^-53\<close> and \<open>2^53\<close>, inside the normal range of a double, so there
  is no overflow, underflow or subnormal result.
\<close>

definition doubleDiv :: "nat \<Rightarrow> nat \<Rightarrow> rat" where
  "doubleDiv a b =
     (if a = 0 then 0
      else (let s = 52 - quotientExponent a b
            in if 0 \<le> s then of_nat (roundHalfEven (a * 2 ^ nat s) b) / 2 ^ nat s
               else of_nat (roundHalfEven a (b * 2 ^ nat (- s))) * 2 ^ nat (- s)))"

record Analytics =
  totalCards :: nat
  completedCards :: nat
  completionRate :: rat
  pagesCount :: nat
  columnsCount :: nat

definition generateAnalytics :: "Page list \<Rightarrow> Analytics" where
  "generateAnalytics ps =
     (let total =
            foldl (\<lambda>acc page. acc +
                     foldl (\<lambda>colAcc column. colAcc + length (col_cards column)) 0
                       (columns (page_board page))) 0 ps;
          completed =
            foldl (\<lambda>acc page. acc +
                     foldl (\<lambda>colAcc column.
                              colAcc + length (filter (\<lambda>c. card_status c = Done) (col_cards column))) 0
                       (columns (page_board page))) 0 ps;
          rate = (if total > 0 then doubleDiv completed total else 0)
      in \<lparr> totalCards = total,
           completedCards = completed,
           completionRate = rate,
           pagesCount = length ps,
           columnsCount = foldl (\<lambda>acc page. acc + length (columns (page_board page))) 0 ps \<rparr>)"

text \<open>Three cards in two columns of one page; the first card is done.\<close>

definition exampleCard :: "string \<Rightarrow> status \<Rightarrow> Card" where
  "exampleCard i s =
     \<lparr> card_id = i, card_title = ''Task'', card_description = [], card_columnId = ''col-c'',
       card_createdAt = 0, card_updatedAt = 0, card_tags = [], card_status = s,
       card_metadata = [] \<rparr>"

definition examplePages :: "Page list" where
  "examplePages =
     [\<lparr> page_id = ''page-p'', page_title = ''Welcome'', page_icon = ''w'',
        page_board =
          \<lparr> columns =
              [\<lparr> col_id = ''col-c'', col_title = ''To Do'',
                 col_cards = [exampleCard ''card-1'' Done, exampleCard ''card-2'' Todo],
                 col_createdAt = 0, col_updatedAt = 0 \<rparr>,
               \<lparr> col_id = ''col-d'', col_title = ''Doing'',
                 col_cards = [(exampleCard ''card-3'' InProgress)\<lparr>card_columnId := ''col-d''\<rparr>],
                 col_createdAt = 0, col_updatedAt = 0 \<rparr>] \<rparr>,
        page_createdAt = 0, page_updatedAt = 0 \<rparr>]"

subsection \<open>Import (lines 220-303)\<close>

text \<open>
  What the code throws. The text of a \<open>TypeError\<close> is chosen by the JavaScript engine; the
  model carries a description of the failing access in its place.
\<close>

datatype js_exn = JsError string | JsTypeError string

fun exn_message :: "js_exn \<Rightarrow> string" where
  "exn_message (JsError m) = m"
| "exn_message (JsTypeError m) = m"

fun truthy :: "json \<Rightarrow> bool" where
  "truthy JNull = False"
| "truthy (JBool b) = b"
| "truthy (JNum n) = (n \<noteq> 0)"
| "truthy (JStr s) = (s \<noteq> [])"
| "truthy (JArr xs) = True"
| "truthy (JObj kvs) = True"

text \<open>\<open>typeof v === 'object'\<close> holds of objects, arrays and \<open>null\<close>.\<close>

fun typeofObject :: "json \<Rightarrow> bool" where
  "typeofObject JNull = True"
| "typeofObject (JArr xs) = True"
| "typeofObject (JObj kvs) = True"
| "typeofObject _ = False"

text \<open>
  Reading one of the properties \<open>workspace\<close>, \<open>pages\<close>, \<open>id\<close>, \<open>title\<close>, \<open>board\<close>,
  \<open>columns\<close>, \<open>cards\<close> of a value that is not \<open>null\<close>: an object has it when the key is
  present (the last occurrence counts), every other value yields \<open>undefined\<close>, which is
  \<open>None\<close>. On \<open>null\<close> the access throws; the callers below treat \<open>null\<close> before they
  read.
\<close>

fun getProp :: "string \<Rightarrow> json \<Rightarrow> json option" where
  "getProp k (JObj kvs) = map_of (rev kvs) k"
| "getProp k _ = None"

definition truthyProp :: "json option \<Rightarrow> bool" where
  "truthyProp v = (case v of None \<Rightarrow> False | Some x \<Rightarrow> truthy x)"

definition isArrayProp :: "json option \<Rightarrow> bool" where
  "isArrayProp v = (case v of Some (JArr xs) \<Rightarrow> True | _ \<Rightarrow> False)"

text \<open>
  The callback of \<open>every\<close> (lines 266-271):
  \<open>page.id && page.title && page.board && Array.isArray(page.board.columns)\<close>.
\<close>

definition pageShape :: "json \<Rightarrow> js_exn + bool" where
  "pageShape page =
     (if page = JNull then Inl (JsTypeError ''Cannot read properties of null (reading id)'')
      else Inr (truthyProp (getProp ''id'' page) \<and> truthyProp (getProp ''title'' page) \<and>
                truthyProp (getProp ''board'' page) \<and>
                (case getProp ''board'' page of
                   None \<Rightarrow> False
                 | Some board \<Rightarrow> isArrayProp (getProp ''columns'' board))))"

fun everyPage :: "json list \<Rightarrow> js_exn + bool" where
  "everyPage [] = Inr True"
| "everyPage (page # rest) =
     (case pageShape page of
        Inl e \<Rightarrow> Inl e
      | Inr ok \<Rightarrow> (if ok then everyPage rest else Inr False))"

definition validateImportData :: "json \<Rightarrow> js_exn + bool" where
  "validateImportData data =
     (if \<not> truthy data \<or> \<not> typeofObject data then Inr False
      else (case getProp ''workspace'' data of
              None \<Rightarrow> Inr False
            | Some w \<Rightarrow>
                (if \<not> truthy w then Inr False
                 else (case getProp ''pages'' w of
                         Some (JArr ps) \<Rightarrow> everyPage ps
                       | _ \<Rightarrow> Inr False))))"

record Imported =
  imp_pages :: nat
  imp_columns :: nat
  imp_cards :: nat

datatype conflictType = ConflictPage | ConflictColumn | ConflictCard
datatype conflictAction = Skipped | Merged | Renamed

record Conflict =
  conflict_type :: conflictType
  conflict_id :: string
  conflict_title :: string
  conflict_action :: conflictAction

record ImportResult =
  success :: bool
  message :: string
  imported :: Imported
  conflicts :: "Conflict list"

datatype mergeStrategy = Replace | Merge | Skip

record ImportOptions =
  opt_mergeStrategy :: mergeStrategy
  opt_preserveIds :: bool

text \<open>Decimal rendering of a counter in a template string.\<close>

fun showNat :: "nat \<Rightarrow> string" where
  "showNat n =
     (if n < 10 then [char_of (48 + n)] else showNat (n div 10) @ [char_of (48 + n mod 10)])"

text \<open>
  \<open>processImport\<close> (lines 274-303) walks validated data with nested \<open>forEach\<close>. For a
  column, \<open>column.cards.forEach(...)\<close> runs only when \<open>cards\<close> is an array; on \<open>null\<close>,
  on a column without \<open>cards\<close> and on any other value it throws a \<open>TypeError\<close>. The
  result is the three counters.
\<close>

definition columnCards :: "json \<Rightarrow> js_exn + nat" where
  "columnCards column =
     (if column = JNull then Inl (JsTypeError ''Cannot read properties of null (reading cards)'')
      else (case getProp ''cards'' column of
              Some (JArr cs) \<Rightarrow> Inr (length cs)
            | _ \<Rightarrow> Inl (JsTypeError ''column.cards.forEach is not a function'')))"

fun countColumns :: "json list \<Rightarrow> Imported \<Rightarrow> js_exn + Imported" where
  "countColumns [] acc = Inr acc"
| "countColumns (column # rest) acc =
     (case columnCards column of
        Inl e \<Rightarrow> Inl e
      | Inr n \<Rightarrow>
          countColumns rest
            (acc\<lparr>imp_columns := imp_columns acc + 1, imp_cards := imp_cards acc + n\<rparr>))"

definition pageColumns :: "json \<Rightarrow> js_exn + json list" where
  "pageColumns page =
     (case getProp ''board'' page of
        None \<Rightarrow> Inl (JsTypeError ''Cannot read properties of undefined (reading columns)'')
      | Some board \<Rightarrow>
          (if board = JNull
           then Inl (JsTypeError ''Cannot read properties of null (reading columns)'')
           else (case getProp ''columns'' board of
                   Some (JArr cols) \<Rightarrow> Inr cols
                 | _ \<Rightarrow> Inl (JsTypeError ''page.board.columns.forEach is not a function''))))"

fun countPages :: "json list \<Rightarrow> Imported \<Rightarrow> js_exn + Imported" where
  "countPages [] acc = Inr acc"
| "countPages (page # rest) acc =
     (if page = JNull then Inl (JsTypeError ''Cannot read properties of null (reading board)'')
      else (case pageColumns page of
              Inl e \<Rightarrow> Inl e
            | Inr cols \<Rightarrow>
                (case countColumns cols (acc\<lparr>imp_pages := imp_pages acc + 1\<rparr>) of
                   Inl e \<Rightarrow> Inl e
                 | Inr acc' \<Rightarrow> countPages rest acc')))"

definition importedPagesOf :: "json \<Rightarrow> js_exn + json list" where
  "importedPagesOf data =
     (if data = JNull then Inl (JsTypeError ''Cannot read properties of null (reading workspace)'')
      else (case getProp ''workspace'' data of
              None \<Rightarrow> Inl (JsTypeError ''Cannot read properties of undefined (reading pages)'')
            | Some w \<Rightarrow>
                (if w = JNull then Inl (JsTypeError ''Cannot read properties of null (reading pages)'')
                 else (case getProp ''pages'' w of
                         Some (JArr ps) \<Rightarrow> Inr ps
                       | _ \<Rightarrow> Inl (JsTypeError ''workspace.pages.forEach is not a function'')))))"

definition processImport :: "json \<Rightarrow> ImportOptions \<Rightarrow> js_exn + ImportResult" where
  "processImport data options =
     (case importedPagesOf data of
        Inl e \<Rightarrow> Inl e
      | Inr ps \<Rightarrow>
          (case countPages ps \<lparr> imp_pages = 0, imp_columns = 0, imp_cards = 0 \<rparr> of
             Inl e \<Rightarrow> Inl e
           | Inr n \<Rightarrow>
               Inr \<lparr> success = True,
                     message = ''Successfully imported '' @ showNat (imp_pages n) @ '' pages, '' @
                               showNat (imp_columns n) @ '' columns, and '' @
                               showNat (imp_cards n) @ '' cards'',
                     imported = n,
                     conflicts = [] \<rparr>))"

text \<open>
  \<open>importWorkspace\<close> (lines 220-241). Its first argument is the outcome of lines 225-226,
  \<open>JSON.parse(await this.readFile(file))\<close>: the parsed value, or what the read or the
  parser threw. Everything thrown inside the \<open>try\<close> reaches the \<open>catch\<close>, and every thrown
  value here is an \<open>Error\<close>, so that the message is \<open>error.message\<close>. The function reads
  and writes no store state: it is a function of the file alone.
\<close>

definition importFailure :: "js_exn \<Rightarrow> ImportResult" where
  "importFailure e =
     \<lparr> success = False,
       message = ''Import failed: '' @ exn_message e,
       imported = \<lparr> imp_pages = 0, imp_columns = 0, imp_cards = 0 \<rparr>,
       conflicts = [] \<rparr>"

definition importWorkspace :: "js_exn + json \<Rightarrow> ImportOptions \<Rightarrow> ImportResult" where
  "importWorkspace parsed options =
     (case parsed of
        Inl e \<Rightarrow> importFailure e
      | Inr data \<Rightarrow>
          (case validateImportData data of
             Inl e \<Rightarrow> importFailure e
           | Inr valid \<Rightarrow>
               (if \<not> valid then importFailure (JsError ''Invalid import data format'')
                else (case processImport data options of
                        Inl e \<Rightarrow> importFailure e
                      | Inr r \<Rightarrow> r))))"

section \<open>Properties of the export and import adapter\<close>

subsection \<open>Analytics\<close>

lemma foldl_add_sum_list:
  "foldl (\<lambda>acc x. acc + f x) a xs = (a::nat) + sum_list (map f xs)"
  by (induction xs arbitrary: a) auto

lemma length_allColumns:
  "length (allColumns ps) = sum_list (map (\<lambda>p. length (columns (page_board p))) ps)"
  by (simp add: allColumns_def length_concat comp_def)

lemma length_allCards:
  "length (allCards ps) =
     sum_list (map (\<lambda>p. sum_list (map (\<lambda>c. length (col_cards c)) (columns (page_board p)))) ps)"
  by (induction ps) (simp_all add: allCards_def allColumns_def length_concat comp_def)

lemma length_filter_allCards:
  "length (filter P (allCards ps)) =
     sum_list (map (\<lambda>p. sum_list (map (\<lambda>c. length (filter P (col_cards c)))
                                   (columns (page_board p)))) ps)"
  by (induction ps)
     (simp_all add: allCards_def allColumns_def length_concat comp_def filter_concat)

subsection \<open>Division of doubles\<close>

text \<open>
  \<open>doubleDiv\<close> is within half a unit in the last place of the quotient, its result has a
  significand of 53 bits, and on 1 and 3 it is the double that prints as
  \<open>0.3333333333333333\<close>.
\<close>

lemma bitLength_0: "bitLength 0 = 0"
  by (simp add: bitLength.simps [of 0])

lemma bitLength_pos: "0 < n \<Longrightarrow> bitLength n = Suc (bitLength (n div 2))"
  by (simp add: bitLength.simps [of n])

lemma bitLength_bounds: "0 < n \<Longrightarrow> 2 ^ (bitLength n - 1) \<le> n \<and> n < 2 ^ bitLength n"
proof (induction n rule: bitLength.induct)
  case (1 n)
  have bl: "bitLength n = Suc (bitLength (n div 2))" using 1(2) by (rule bitLength_pos)
  show ?case
  proof (cases "n div 2 = 0")
    case True
    with 1(2) have n1: "n = 1" by (auto simp: div_eq_0_iff)
    from bl True have "bitLength n = 1" by (simp add: bitLength_0)
    with n1 show ?thesis by simp
  next
    case False
    with 1 have ih: "2 ^ (bitLength (n div 2) - 1) \<le> n div 2" "n div 2 < 2 ^ bitLength (n div 2)"
      by auto
    have pos: "0 < bitLength (n div 2)" using False by (simp add: bitLength_pos)
    from ih(1) have "2 * 2 ^ (bitLength (n div 2) - 1) \<le> n" by linarith
    moreover have "2 * 2 ^ (bitLength (n div 2) - 1) = (2::nat) ^ bitLength (n div 2)"
      using pos by (metis Suc_pred' power_Suc)
    moreover from ih(2) have "n < 2 * 2 ^ bitLength (n div 2)" by linarith
    ultimately show ?thesis by (simp add: bl)
  qed
qed

lemma bitLength_bounds_rat:
  assumes "0 < n"
  shows "(2::rat) ^ bitLength n \<le> 2 * of_nat n" and "(of_nat n :: rat) < 2 ^ bitLength n"
proof -
  from bitLength_bounds [OF assms]
  have a: "2 ^ (bitLength n - 1) \<le> n" and b: "n < 2 ^ bitLength n" by simp_all
  have "bitLength n = Suc (bitLength n - 1)" using assms by (simp add: bitLength_pos)
  then have "(2::nat) ^ bitLength n = 2 * 2 ^ (bitLength n - 1)" by (metis power_Suc)
  with a have "(2::nat) ^ bitLength n \<le> 2 * n" by simp
  then have "(of_nat ((2::nat) ^ bitLength n) :: rat) \<le> of_nat (2 * n)" by (simp only: of_nat_le_iff)
  then show "(2::rat) ^ bitLength n \<le> 2 * of_nat n" by simp
  from b have "(of_nat n :: rat) < of_nat (2 ^ bitLength n)" by (simp only: of_nat_less_iff)
  then show "(of_nat n :: rat) < 2 ^ bitLength n" by simp
qed

lemma quotient_upper_aux:
  fixes A B P Q :: rat
  assumes "0 < Q" "0 < P" "A < P" "Q \<le> 2 * B"
  shows "A < 2 * P / Q * B"
proof -
  have "A * Q < P * Q" using assms(1,3) by (rule mult_strict_right_mono [rotated])
  also have "P * Q \<le> P * (2 * B)" using assms(4) assms(2) by (intro mult_left_mono) simp_all
  finally have "A * Q < 2 * P * B" by (simp only: mult.assoc mult.left_commute [of P 2 B])
  then have "A < 2 * P * B / Q" using assms(1) by (simp only: pos_less_divide_eq)
  then show ?thesis by (simp only: times_divide_eq_left)
qed

lemma quotient_lower_aux:
  fixes A B P Q :: rat
  assumes "0 < Q" "0 < P" "B < Q" "P \<le> 2 * A"
  shows "P / (2 * Q) * B \<le> A"
proof -
  have "P * B \<le> P * Q" using assms(2,3) by (intro mult_left_mono) simp_all
  also have "P * Q \<le> (2 * A) * Q" using assms(1,4) by (intro mult_right_mono) simp_all
  also have "(2 * A) * Q = A * (2 * Q)" by (simp only: mult.assoc mult.left_commute [of 2 A Q])
  finally have "P * B \<le> A * (2 * Q)" .
  moreover have "0 < 2 * Q" using assms(1) by simp
  ultimately have "P * B / (2 * Q) \<le> A" by (simp only: pos_divide_le_eq)
  then show ?thesis by (simp only: times_divide_eq_left)
qed

lemma exponentTest_nonneg:
  assumes "0 \<le> d"
  shows "(b * 2 ^ nat d \<le> a) = ((2::rat) powi d * of_nat b \<le> of_nat a)"
proof -
  have "b * 2 ^ nat d \<le> a \<longleftrightarrow> (of_nat (b * 2 ^ nat d) :: rat) \<le> of_nat a"
    by (simp only: of_nat_le_iff)
  also have "(of_nat (b * 2 ^ nat d) :: rat) = 2 ^ nat d * of_nat b"
    by (simp only: of_nat_mult of_nat_power of_nat_numeral mult.commute)
  also have "(2::rat) ^ nat d = 2 powi d" using assms by (simp only: power_int_nonneg_exp)
  finally show ?thesis .
qed

lemma exponentTest_neg:
  assumes "d < 0"
  shows "(b \<le> a * 2 ^ nat (- d)) = ((2::rat) powi d * of_nat b \<le> of_nat a)"
proof -
  let ?k = "nat (- d)"
  have "(2::rat) powi d = 2 powi (- (- d))" by simp
  also have "\<dots> = 1 / 2 powi (- d)" by (rule power_int_minus_divide)
  also have "(2::rat) powi (- d) = 2 ^ ?k" using assms by (simp add: power_int_nonneg_exp)
  finally have pw: "(2::rat) powi d = 1 / 2 ^ ?k" .
  have "b \<le> a * 2 ^ ?k \<longleftrightarrow> (of_nat b :: rat) \<le> of_nat (a * 2 ^ ?k)"
    by (simp only: of_nat_le_iff)
  also have "(of_nat (a * 2 ^ ?k) :: rat) = of_nat a * 2 ^ ?k"
    by (simp only: of_nat_mult of_nat_power of_nat_numeral)
  also have "(of_nat b :: rat) \<le> of_nat a * 2 ^ ?k \<longleftrightarrow> of_nat b / 2 ^ ?k \<le> (of_nat a :: rat)"
    by (simp add: pos_divide_le_eq)
  also have "(of_nat b :: rat) / 2 ^ ?k = 2 powi d * of_nat b"
    by (simp only: pw times_divide_eq_left mult_1)
  finally show ?thesis .
qed

lemma pw_diff: "(2::rat) powi (int m - int n) = 2 ^ m / 2 ^ n"
  by (simp add: power_int_diff)
lemma pw_diff1: "(2::rat) powi (int m - int n + 1) = 2 * 2 ^ m / 2 ^ n"
  by (simp add: power_int_add power_int_diff)
lemma pw_diffm: "(2::rat) powi (int m - int n - 1) = 2 ^ m / (2 * 2 ^ n)"
  by (simp add: power_int_diff)

lemma quotientExponent_bounds:
  assumes a: "0 < a" and b: "0 < b"
  shows "2 powi quotientExponent a b * of_nat b \<le> (of_nat a :: rat)"
    and "(of_nat a :: rat) < 2 powi (quotientExponent a b + 1) * of_nat b"
proof -
  let ?A = "of_nat a :: rat" and ?B = "of_nat b :: rat"
  let ?P = "(2::rat) ^ bitLength a" and ?Q = "(2::rat) ^ bitLength b"
  let ?d = "int (bitLength a) - int (bitLength b)"
  let ?T = "if 0 \<le> ?d then b * 2 ^ nat ?d \<le> a else b \<le> a * 2 ^ nat (- ?d)"
  have Ppos: "0 < ?P" and Qpos: "0 < ?Q" by simp_all
  note PA = bitLength_bounds_rat [OF a] and QB = bitLength_bounds_rat [OF b]
  have T: "?T \<longleftrightarrow> 2 powi ?d * ?B \<le> ?A"
  proof (cases "0 \<le> ?d")
    case True
    then show ?thesis by (simp only: if_True exponentTest_nonneg [OF True])
  next
    case False
    then have neg: "?d < 0" by simp
    from False show ?thesis by (simp only: if_False exponentTest_neg [OF neg])
  qed
  have upper: "?A < 2 powi (?d + 1) * ?B"
    unfolding pw_diff1 by (rule quotient_upper_aux [OF Qpos Ppos PA(2) QB(1)])
  have lower: "2 powi (?d - 1) * ?B \<le> ?A"
    unfolding pw_diffm by (rule quotient_lower_aux [OF Qpos Ppos QB(2) PA(1)])
  show "2 powi quotientExponent a b * ?B \<le> ?A"
  proof (cases ?T)
    case True
    then have "quotientExponent a b = ?d" by (simp add: quotientExponent_def Let_def)
    with True T show ?thesis by (simp only:)
  next
    case False
    then have "quotientExponent a b = ?d - 1" by (simp add: quotientExponent_def Let_def)
    with lower show ?thesis by (simp only:)
  qed
  show "?A < 2 powi (quotientExponent a b + 1) * ?B"
  proof (cases ?T)
    case True
    then have "quotientExponent a b = ?d" by (simp add: quotientExponent_def Let_def)
    with upper show ?thesis by (simp only:)
  next
    case False
    then have e: "quotientExponent a b = ?d - 1" by (simp add: quotientExponent_def Let_def)
    from False T have "?A < 2 powi ?d * ?B" by (simp only: not_le)
    then show ?thesis by (simp add: e)
  qed
qed

lemma roundHalfEven_error:
  assumes "0 < d"
  shows "2 * \<bar>int (roundHalfEven n d) * int d - int n\<bar> \<le> int d"
proof -
  let ?q = "n div d" and ?r = "n mod d"
  have n: "int n = int ?q * int d + int ?r"
    by (metis mult.commute of_nat_add of_nat_mult div_mult_mod_eq)
  have r: "?r < d" using assms by simp
  show ?thesis
  proof (cases "d < 2 * ?r \<or> (2 * ?r = d \<and> odd ?q)")
    case True
    then have "roundHalfEven n d = ?q + 1" by (simp add: roundHalfEven_def Let_def)
    then have "int (roundHalfEven n d) * int d - int n = int d - int ?r"
      using n by (simp add: algebra_simps)
    with True r show ?thesis by auto
  next
    case False
    then have "roundHalfEven n d = ?q" by (simp add: roundHalfEven_def Let_def)
    then have "int (roundHalfEven n d) * int d - int n = - int ?r"
      using n by simp
    with False show ?thesis by auto
  qed
qed

lemma roundHalfEven_error_rat:
  assumes "0 < d"
  shows "2 * \<bar>(of_nat (roundHalfEven n d) :: rat) * of_nat d - of_nat n\<bar> \<le> of_nat d"
proof -
  have "(of_int (2 * \<bar>int (roundHalfEven n d) * int d - int n\<bar>) :: rat) \<le> of_int (int d)"
    using roundHalfEven_error [OF assms, of n] by (simp only: of_int_le_iff)
  then show ?thesis by simp
qed


lemma err_pos_aux:
  fixes M A B K :: rat
  assumes K: "0 < K" and r: "2 * \<bar>M * B - A * K\<bar> \<le> B"
  shows "\<bar>M / K * B - A\<bar> * 2 ^ 53 \<le> 2 ^ 52 / K * B"
proof -
  have "M / K * B - A = (M * B - A * K) / K"
    using K by (simp add: diff_divide_distrib)
  then have "\<bar>M / K * B - A\<bar> = \<bar>M * B - A * K\<bar> / K"
    using K by (simp only: abs_divide abs_of_pos)
  then have "\<bar>M / K * B - A\<bar> * 2 ^ 53 = (2 * \<bar>M * B - A * K\<bar>) * (2 ^ 52 / K)"
    by simp
  also have "\<dots> \<le> B * (2 ^ 52 / K)"
    using r K by (intro mult_right_mono) simp_all
  finally show ?thesis by (simp only: mult.commute)
qed

lemma err_neg_aux:
  fixes M A B K :: rat
  assumes r: "2 * \<bar>M * (B * K) - A\<bar> \<le> B * K"
  shows "\<bar>M * K * B - A\<bar> * 2 ^ 53 \<le> 2 ^ 52 * K * B"
proof -
  have eq: "M * K * B = M * (B * K)" by (simp only: mult.assoc mult.commute [of K B])
  have "\<bar>M * (B * K) - A\<bar> * 2 ^ 53 = (2 * \<bar>M * (B * K) - A\<bar>) * 2 ^ 52" by simp
  then have "\<bar>M * K * B - A\<bar> * 2 ^ 53 = (2 * \<bar>M * (B * K) - A\<bar>) * 2 ^ 52"
    by (simp only: eq)
  also have "\<dots> \<le> (B * K) * 2 ^ 52" using r by (intro mult_right_mono) simp_all
  also have "\<dots> = 2 ^ 52 * K * B" by (simp only: mult.assoc mult.commute mult.left_commute)
  finally show ?thesis .
qed

lemma pw_sum: "(2::rat) powi (int m + int n) = 2 ^ m * 2 ^ n"
  by (simp add: power_int_add)

lemma doubleDiv_halfUlp:
  assumes a: "0 < a" and b: "0 < b"
  shows "\<bar>doubleDiv a b * of_nat b - of_nat a\<bar> * 2 ^ 53 \<le>
           2 powi quotientExponent a b * (of_nat b :: rat)"
proof -
  let ?e = "quotientExponent a b"
  let ?s = "52 - ?e"
  let ?A = "of_nat a :: rat" and ?B = "of_nat b :: rat"
  show ?thesis
  proof (cases "0 \<le> ?s")
    case True
    let ?k = "nat ?s"
    let ?m = "roundHalfEven (a * 2 ^ ?k) b"
    have v: "doubleDiv a b = of_nat ?m / 2 ^ ?k"
      using a True by (simp add: doubleDiv_def Let_def)
    have "2 * \<bar>(of_nat ?m :: rat) * ?B - of_nat (a * 2 ^ ?k)\<bar> \<le> ?B"
      by (rule roundHalfEven_error_rat [OF b])
    then have r: "2 * \<bar>(of_nat ?m :: rat) * ?B - ?A * 2 ^ ?k\<bar> \<le> ?B" by simp
    have e: "?e = int 52 - int ?k" using True by simp
    have "(2::rat) powi ?e = 2 powi (int 52 - int ?k)" by (rule arg_cong [OF e])
    also have "\<dots> = 2 ^ 52 / 2 ^ ?k" by (rule pw_diff)
    finally have "(2::rat) powi ?e = 2 ^ 52 / 2 ^ ?k" .
    moreover have "\<bar>of_nat ?m / 2 ^ ?k * ?B - ?A\<bar> * 2 ^ 53 \<le> 2 ^ 52 / 2 ^ ?k * ?B"
      by (rule err_pos_aux [OF _ r]) simp
    ultimately show ?thesis by (simp only: v)
  next
    case False
    let ?k = "nat (- ?s)"
    let ?m = "roundHalfEven a (b * 2 ^ ?k)"
    have v: "doubleDiv a b = of_nat ?m * 2 ^ ?k"
      using a False by (simp add: doubleDiv_def Let_def)
    have "0 < b * 2 ^ ?k" using b by simp
    then have "2 * \<bar>(of_nat ?m :: rat) * of_nat (b * 2 ^ ?k) - ?A\<bar> \<le> of_nat (b * 2 ^ ?k)"
      by (rule roundHalfEven_error_rat)
    then have r: "2 * \<bar>(of_nat ?m :: rat) * (?B * 2 ^ ?k) - ?A\<bar> \<le> ?B * 2 ^ ?k" by simp
    have e: "?e = int 52 + int ?k" using False by simp
    have "(2::rat) powi ?e = 2 powi (int 52 + int ?k)" by (rule arg_cong [OF e])
    also have "\<dots> = 2 ^ 52 * 2 ^ ?k" by (rule pw_sum)
    finally have "(2::rat) powi ?e = 2 ^ 52 * 2 ^ ?k" .
    moreover have "\<bar>of_nat ?m * 2 ^ ?k * ?B - ?A\<bar> * 2 ^ 53 \<le> 2 ^ 52 * 2 ^ ?k * ?B"
      by (rule err_neg_aux [OF r])
    ultimately show ?thesis by (simp only: v)
  qed
qed

lemma doubleDiv_relative_error:
  assumes b: "0 < b"
  shows "\<bar>doubleDiv a b * of_nat b - of_nat a\<bar> * 2 ^ 53 \<le> (of_nat a :: rat)"
proof (cases "a = 0")
  case True
  then show ?thesis by (simp add: doubleDiv_def)
next
  case False
  then have a: "0 < a" by simp
  from doubleDiv_halfUlp [OF a b] quotientExponent_bounds(1) [OF a b]
  show ?thesis by (rule order_trans)
qed

lemma bitLength_1: "bitLength (Suc 0) = 1"
  by (simp add: bitLength.simps [of "Suc 0"] bitLength_0)

lemma bitLength_3: "bitLength 3 = 2"
  by (simp add: bitLength.simps [of 3] bitLength_1)

lemma doubleDiv_1_3: "doubleDiv 1 3 = 6004799503160661 / 2 ^ 54"
  by (simp add: doubleDiv_def quotientExponent_def roundHalfEven_def Let_def bitLength_1 bitLength_3)


lemma roundHalfEven_range:
  assumes d: "0 < d" and lo: "lo * d \<le> n" and hi: "n < hi * d"
  shows "lo \<le> roundHalfEven n d \<and> roundHalfEven n d \<le> hi"
proof -
  have "lo \<le> n div d" using lo d by (simp add: less_eq_div_iff_mult_less_eq)
  moreover have "n div d < hi" using hi d by (simp add: div_less_iff_less_mult)
  moreover have "roundHalfEven n d = n div d \<or> roundHalfEven n d = n div d + 1"
    by (simp add: roundHalfEven_def Let_def)
  ultimately show ?thesis by auto
qed

lemma pw_neg: "(2::rat) powi (- int k) = 1 / 2 ^ k"
proof -
  have "(2::rat) powi (- int k) = 1 / 2 powi (int k)" by (rule power_int_minus_divide)
  then show ?thesis by simp
qed

lemma scale_pos_aux:
  fixes A B K :: rat
  assumes K: "0 < K" and lo: "2 ^ 52 / K * B \<le> A" and hi: "A < 2 ^ 53 / K * B"
  shows "2 ^ 52 * B \<le> A * K \<and> A * K < 2 ^ 53 * B"
proof -
  from lo have "2 ^ 52 * B / K \<le> A" by (simp only: times_divide_eq_left)
  then have "2 ^ 52 * B \<le> A * K" using K by (simp only: pos_divide_le_eq)
  moreover from hi have "A < 2 ^ 53 * B / K" by (simp only: times_divide_eq_left)
  then have "A * K < 2 ^ 53 * B" using K by (simp only: pos_less_divide_eq)
  ultimately show ?thesis by simp
qed

lemma doubleDiv_significand:
  assumes a: "0 < a" and b: "0 < b"
  shows "\<exists>m. 2 ^ 52 \<le> m \<and> m \<le> 2 ^ 53 \<and>
             doubleDiv a b = of_nat m * 2 powi (quotientExponent a b - 52)"
proof -
  let ?e = "quotientExponent a b"
  let ?s = "52 - ?e"
  let ?A = "of_nat a :: rat" and ?B = "of_nat b :: rat"
  note qb = quotientExponent_bounds [OF a b]
  show ?thesis
  proof (cases "0 \<le> ?s")
    case True
    let ?k = "nat ?s"
    let ?m = "roundHalfEven (a * 2 ^ ?k) b"
    have v: "doubleDiv a b = of_nat ?m / 2 ^ ?k"
      using a True by (simp add: doubleDiv_def Let_def)
    have e: "?e = int 52 - int ?k" using True by simp
    have e1: "?e + 1 = int 53 - int ?k" using True by simp
    have em: "?e - 52 = - int ?k" using True by simp
    have p: "(2::rat) powi ?e = 2 ^ 52 / 2 ^ ?k"
      using arg_cong [OF e, of "\<lambda>z. (2::rat) powi z"] by (simp only: pw_diff)
    have p1: "(2::rat) powi (?e + 1) = 2 ^ 53 / 2 ^ ?k"
      using arg_cong [OF e1, of "\<lambda>z. (2::rat) powi z"] by (simp only: pw_diff)
    have pm: "(2::rat) powi (?e - 52) = 1 / 2 ^ ?k"
      using arg_cong [OF em, of "\<lambda>z. (2::rat) powi z"] by (simp only: pw_neg)
    have "2 ^ 52 * ?B \<le> ?A * 2 ^ ?k \<and> ?A * 2 ^ ?k < 2 ^ 53 * ?B"
      by (rule scale_pos_aux) (use qb in \<open>simp_all only: p p1\<close>, simp)
    then have "(of_nat (2 ^ 52 * b) :: rat) \<le> of_nat (a * 2 ^ ?k)"
      and "(of_nat (a * 2 ^ ?k) :: rat) < of_nat (2 ^ 53 * b)" by simp_all
    then have "2 ^ 52 * b \<le> a * 2 ^ ?k" and "a * 2 ^ ?k < 2 ^ 53 * b"
      by (simp_all only: of_nat_le_iff of_nat_less_iff)
    from roundHalfEven_range [OF b this] have "2 ^ 52 \<le> ?m \<and> ?m \<le> 2 ^ 53" .
    moreover have "doubleDiv a b = of_nat ?m * 2 powi (?e - 52)"
      by (simp only: v pm) simp
    ultimately show ?thesis by blast
  next
    case False
    let ?k = "nat (- ?s)"
    let ?m = "roundHalfEven a (b * 2 ^ ?k)"
    have v: "doubleDiv a b = of_nat ?m * 2 ^ ?k"
      using a False by (simp add: doubleDiv_def Let_def)
    have e: "?e = int 52 + int ?k" using False by simp
    have e1: "?e + 1 = int 53 + int ?k" using False by simp
    have em: "?e - 52 = int ?k" using False by simp
    have p: "(2::rat) powi ?e = 2 ^ 52 * 2 ^ ?k"
      using arg_cong [OF e, of "\<lambda>z. (2::rat) powi z"] by (simp only: pw_sum)
    have p1: "(2::rat) powi (?e + 1) = 2 ^ 53 * 2 ^ ?k"
      using arg_cong [OF e1, of "\<lambda>z. (2::rat) powi z"] by (simp only: pw_sum)
    have pm: "(2::rat) powi (?e - 52) = 2 ^ ?k"
      using arg_cong [OF em, of "\<lambda>z. (2::rat) powi z"] by (simp only: power_int_of_nat)
    from qb have "2 ^ 52 * 2 ^ ?k * ?B \<le> ?A" and "?A < 2 ^ 53 * 2 ^ ?k * ?B"
      by (simp_all only: p p1)
    then have "(of_nat (2 ^ 52 * (b * 2 ^ ?k)) :: rat) \<le> of_nat a"
      and "(of_nat a :: rat) < of_nat (2 ^ 53 * (b * 2 ^ ?k))" by (simp_all add: mult_ac)
    then have "2 ^ 52 * (b * 2 ^ ?k) \<le> a" and "a < 2 ^ 53 * (b * 2 ^ ?k)"
      by (simp_all only: of_nat_le_iff of_nat_less_iff)
    moreover have "0 < b * 2 ^ ?k" using b by simp
    ultimately have "2 ^ 52 \<le> ?m \<and> ?m \<le> 2 ^ 53" by (intro roundHalfEven_range)
    moreover have "doubleDiv a b = of_nat ?m * 2 powi (?e - 52)"
      by (simp only: v pm)
    ultimately show ?thesis by blast
  qed
qed

subsection \<open>The summary\<close>

text \<open>
  Claim C9. For every list of pages, \<open>generateAnalytics\<close> returns as \<open>totalCards\<close> the
  number of cards in all columns of all pages, as \<open>completedCards\<close> the number of those
  cards whose status is \<open>done\<close>, as \<open>completionRate\<close> the second divided by the first
  when there is a card and 0 when there is none, and as \<open>pagesCount\<close> and
  \<open>columnsCount\<close> the number of pages and of columns. The division is that of doubles:
  the rate is the double nearest to the quotient, so that it differs from the quotient by
  at most the quotient times \<open>2^-53\<close>.
\<close>

theorem generateAnalytics_correct:
  "totalCards (generateAnalytics ps) = length (allCards ps) \<and>
   completedCards (generateAnalytics ps) =
     length (filter (\<lambda>c. card_status c = Done) (allCards ps)) \<and>
   completionRate (generateAnalytics ps) =
     (if length (allCards ps) > 0
      then doubleDiv (length (filter (\<lambda>c. card_status c = Done) (allCards ps)))
             (length (allCards ps))
      else 0) \<and>
   \<bar>completionRate (generateAnalytics ps) * of_nat (length (allCards ps)) -
      of_nat (length (filter (\<lambda>c. card_status c = Done) (allCards ps)))\<bar> * 2 ^ 53 \<le>
     of_nat (length (filter (\<lambda>c. card_status c = Done) (allCards ps))) \<and>
   pagesCount (generateAnalytics ps) = length ps \<and>
   columnsCount (generateAnalytics ps) = length (allColumns ps)"
proof -
  let ?t = "length (allCards ps)"
  let ?c = "length (filter (\<lambda>c. card_status c = Done) (allCards ps))"
  have tot: "foldl (\<lambda>acc page. acc +
                     foldl (\<lambda>colAcc column. colAcc + length (col_cards column)) 0
                       (columns (page_board page))) 0 ps = ?t"
    by (simp add: foldl_add_sum_list length_allCards)
  have comp: "foldl (\<lambda>acc page. acc +
                     foldl (\<lambda>colAcc column.
                              colAcc + length (filter (\<lambda>c. card_status c = Done) (col_cards column))) 0
                       (columns (page_board page))) 0 ps = ?c"
    by (simp add: foldl_add_sum_list length_filter_allCards)
  have cols: "foldl (\<lambda>acc page. acc + length (columns (page_board page))) 0 ps =
      length (allColumns ps)"
    by (simp add: foldl_add_sum_list length_allColumns)
  have counts: "totalCards (generateAnalytics ps) = ?t" "completedCards (generateAnalytics ps) = ?c"
    "pagesCount (generateAnalytics ps) = length ps"
    "columnsCount (generateAnalytics ps) = length (allColumns ps)"
    by (simp_all only: generateAnalytics_def Let_def tot comp cols Analytics.select_convs)
  have rate: "completionRate (generateAnalytics ps) = (if ?t > 0 then doubleDiv ?c ?t else 0)"
    by (simp only: generateAnalytics_def Let_def tot comp Analytics.select_convs)
  have near: "\<bar>completionRate (generateAnalytics ps) * of_nat ?t - of_nat ?c\<bar> * 2 ^ 53 \<le>
      (of_nat ?c :: rat)"
  proof (cases "?t > 0")
    case True
    then have "completionRate (generateAnalytics ps) = doubleDiv ?c ?t" by (simp only: rate if_True)
    then show ?thesis using doubleDiv_relative_error [OF True, of ?c] by (simp only:)
  next
    case False
    then have "allCards ps = []" by simp
    then show ?thesis by (simp only: rate) simp
  qed
  from counts rate near show ?thesis by (simp only:)
qed

theorem generateAnalytics_correct_witness:
  "length (allCards examplePages) = 3 \<and>
   length (filter (\<lambda>c. card_status c = Done) (allCards examplePages)) = 1 \<and>
   completionRate (generateAnalytics examplePages) = 6004799503160661 / 2 ^ 54 \<and>
   completionRate (generateAnalytics examplePages) \<noteq> 1 / 3"
proof -
  have t: "length (allCards examplePages) = 3" by code_simp
  have c: "length (filter (\<lambda>c. card_status c = Done) (allCards examplePages)) = 1" by code_simp
  from generateAnalytics_correct [of examplePages]
  have "completionRate (generateAnalytics examplePages) =
      (if length (allCards examplePages) > 0
       then doubleDiv (length (filter (\<lambda>c. card_status c = Done) (allCards examplePages)))
              (length (allCards examplePages))
       else 0)"
    by blast
  moreover have "(0::nat) < 3" by simp
  ultimately have "completionRate (generateAnalytics examplePages) = doubleDiv 1 3"
    by (simp only: t c if_True)
  then have r: "completionRate (generateAnalytics examplePages) = 6004799503160661 / 2 ^ 54"
    by (simp only: doubleDiv_1_3)
  have "(6004799503160661 / 2 ^ 54 :: rat) \<noteq> 1 / 3" by simp
  with t c r show ?thesis by simp
qed

subsection \<open>Import of data that fails the shape check\<close>

text \<open>
  Claim C8, as the code has it. For every parsed value on which the shape check does not
  return \<open>true\<close>, \<open>importWorkspace\<close> returns a result with \<open>success = false\<close>, zero
  imported pages, columns and cards, no conflicts, and a message that starts with
  \<open>Import failed: \<close>: it is \<open>Import failed: Invalid import data format\<close> when the check
  returns \<open>false\<close>, and \<open>Import failed: \<close> followed by the message of the \<open>TypeError\<close> when
  the check itself throws on a \<open>null\<close> page.
\<close>

theorem importWorkspace_shape_failure:
  assumes "validateImportData data \<noteq> Inr True"
  shows "success (importWorkspace (Inr data) options) = False \<and>
         message (importWorkspace (Inr data) options) =
           ''Import failed: '' @
             (case validateImportData data of
                Inl e \<Rightarrow> exn_message e
              | Inr b \<Rightarrow> ''Invalid import data format'') \<and>
         imported (importWorkspace (Inr data) options) =
           \<lparr> imp_pages = 0, imp_columns = 0, imp_cards = 0 \<rparr> \<and>
         conflicts (importWorkspace (Inr data) options) = []"
  using assms by (auto simp: importWorkspace_def importFailure_def split: sum.splits)

theorem importWorkspace_shape_failure_witness:
  "validateImportData (JObj [(''workspace'', JObj [(''pages'', JNum 5)])]) \<noteq> Inr True \<and>
   success (importWorkspace (Inr (JObj [(''workspace'', JObj [(''pages'', JNum 5)])]))
              \<lparr>opt_mergeStrategy = Merge, opt_preserveIds = False\<rparr>) = False \<and>
   message (importWorkspace (Inr (JObj [(''workspace'', JObj [(''pages'', JNum 5)])]))
              \<lparr>opt_mergeStrategy = Merge, opt_preserveIds = False\<rparr>) =
     ''Import failed: Invalid import data format''"
proof -
  have h: "validateImportData (JObj [(''workspace'', JObj [(''pages'', JNum 5)])]) \<noteq> Inr True"
    by (simp add: validateImportData_def)
  show ?thesis
    using h importWorkspace_shape_failure [OF h, of "\<lparr>opt_mergeStrategy = Merge, opt_preserveIds = False\<rparr>"]
    by (simp add: validateImportData_def)
qed

text \<open>
  The message is not the bare \<open>Invalid import data format\<close>: on the parsed file \<open>{}\<close>,
  which has no \<open>workspace\<close>, the check returns \<open>false\<close> and the message carries the prefix
  of the \<open>catch\<close> clause.
\<close>

theorem importWorkspace_message_counterexample:
  "validateImportData (JObj []) = Inr False \<and>
   message (importWorkspace (Inr (JObj [])) \<lparr>opt_mergeStrategy = Replace, opt_preserveIds = True\<rparr>) =
     ''Import failed: Invalid import data format'' \<and>
   message (importWorkspace (Inr (JObj [])) \<lparr>opt_mergeStrategy = Replace, opt_preserveIds = True\<rparr>) \<noteq>
     ''Invalid import data format''"
  by (simp add: validateImportData_def importWorkspace_def importFailure_def)

section \<open>Properties of the store\<close>

subsection \<open>Lookups and in-place updates\<close>

lemma modify_first_none: "find P xs = None \<Longrightarrow> modify_first P f xs = xs"
  by (induction xs) auto

lemma findIndex_None_iff: "findIndex P xs = None \<longleftrightarrow> find P xs = None"
  by (induction xs) auto

lemma findIndex_Some:
  "findIndex P xs = Some i \<Longrightarrow>
     i < length xs \<and> P (xs ! i) \<and> find P xs = Some (xs ! i) \<and> (\<forall>j<i. \<not> P (xs ! j))"
proof (induction xs arbitrary: i)
  case Nil
  then show ?case by simp
next
  case (Cons x xs)
  then show ?case
    by (auto split: if_splits simp: nth_Cons split: nat.splits)
qed

lemma find_Some_findIndex:
  "find P xs = Some y \<Longrightarrow> \<exists>i. findIndex P xs = Some i \<and> xs ! i = y"
  by (induction xs) (auto split: if_splits)

lemma modify_first_nth:
  "findIndex P xs = Some i \<Longrightarrow> modify_first P f xs = xs[i := f (xs ! i)]"
  by (induction xs arbitrary: i) (auto split: if_splits)

lemma length_modify_first: "length (modify_first P f xs) = length xs"
  by (induction xs) auto

lemma find_modify_first:
  "(\<And>x. P x \<Longrightarrow> P (f x)) \<Longrightarrow> find P (modify_first P f xs) = map_option f (find P xs)"
  by (induction xs) auto

lemma modify_first_cong_find:
  "find P xs = Some y \<Longrightarrow> f y = g y \<Longrightarrow> modify_first P f xs = modify_first P g xs"
  by (induction xs) (auto split: if_splits)

lemma modify_first_twice:
  "(\<And>x. P x \<Longrightarrow> P (f x)) \<Longrightarrow>
   modify_first P g (modify_first P f xs) = modify_first P (\<lambda>x. g (f x)) xs"
  by (induction xs) auto

lemma list_all_modify_first:
  "list_all R xs \<Longrightarrow> (\<And>x. Q x \<Longrightarrow> R x \<Longrightarrow> R (f x)) \<Longrightarrow> list_all R (modify_first Q f xs)"
  by (induction xs) auto

lemma mset_splice_insert: "mset (splice_insert t x xs) = add_mset x (mset xs)"
proof -
  have "mset (take k xs @ x # drop k xs) = add_mset x (mset xs)" for k
    by (metis append_take_drop_id mset.simps(2) mset_append union_mset_add_mset_right)
  then show ?thesis by (simp add: splice_insert_def Let_def)
qed

lemma mset_splice_remove:
  "i < length xs \<Longrightarrow> add_mset (xs ! i) (mset (splice_remove i xs)) = mset xs"
proof -
  assume "i < length xs"
  then have "xs = take i xs @ xs ! i # drop (Suc i) xs"
    by (simp add: id_take_nth_drop)
  then have "mset xs = mset (take i xs @ xs ! i # drop (Suc i) xs)" by simp
  then show ?thesis by (simp add: splice_remove_def)
qed

lemma splice_insert_end:
  "int (length xs) \<le> t \<Longrightarrow> splice_insert t x xs = xs @ [x]"
  by (simp add: splice_insert_def splice_start_def)

lemma length_splice_remove: "i < length xs \<Longrightarrow> length (splice_remove i xs) = length xs - 1"
  by (auto simp: splice_remove_def)

lemma findIndex_unique_filter:
  "findIndex P xs = Some i \<Longrightarrow> length (filter P xs) = 1 \<Longrightarrow>
     filter P xs = [xs ! i] \<and> splice_remove i xs = filter (\<lambda>x. \<not> P x) xs"
proof (induction xs arbitrary: i)
  case Nil
  then show ?case by simp
next
  case (Cons x xs)
  show ?case
  proof (cases "P x")
    case True
    with Cons.prems have i0: "i = 0" and none: "filter P xs = []" by auto
    then have "filter (\<lambda>x. \<not> P x) xs = xs"
      by (simp add: filter_empty_conv)
    with True i0 none show ?thesis by (simp add: splice_remove_def)
  next
    case False
    with Cons.prems obtain j where j: "findIndex P xs = Some j" "i = Suc j" by auto
    from False Cons.prems have "length (filter P xs) = 1" by simp
    from Cons.IH[OF j(1) this] False j(2) show ?thesis by (simp add: splice_remove_def)
  qed
qed

lemma filter_splice_insert:
  "filter Q (splice_insert t x xs) =
     filter Q (take (splice_start t (length xs)) xs) @ (if Q x then [x] else []) @
     filter Q (drop (splice_start t (length xs)) xs)"
  by (simp add: splice_insert_def Let_def)

lemma filter_take_drop: "filter Q (take k xs) @ filter Q (drop k xs) = filter Q xs"
  by (metis append_take_drop_id filter_append)

lemma reinsert_unique:
  assumes "P x" and "filter P ys = []"
  shows "\<exists>i. findIndex P (splice_insert t x ys) = Some i \<and> splice_insert t x ys ! i = x \<and>
             splice_remove i (splice_insert t x ys) = ys"
proof -
  let ?zs = "splice_insert t x ys"
  have all: "filter (\<lambda>x. \<not> P x) ys = ys" using assms(2) by (simp add: filter_empty_conv)
  have fP: "filter P ?zs = [x]"
  proof -
    have "filter P (take k ys) = []" "filter P (drop k ys) = []" for k
      using assms(2) by (auto simp: filter_empty_conv dest: in_set_takeD in_set_dropD)
    then show ?thesis using assms(1) by (simp add: filter_splice_insert)
  qed
  then have "find P ?zs \<noteq> None"
    by (metis filter_empty_conv find_None_iff list.distinct(1))
  then obtain i where i: "findIndex P ?zs = Some i"
    using findIndex_None_iff[of P ?zs] by (cases "findIndex P ?zs") auto
  from findIndex_unique_filter[OF i] fP
  have a: "[?zs ! i] = [x]" and b: "splice_remove i ?zs = filter (\<lambda>x. \<not> P x) ?zs" by auto
  have "filter (\<lambda>x. \<not> P x) ?zs = filter (\<lambda>x. \<not> P x) ys"
    using assms(1) by (simp add: filter_splice_insert filter_take_drop)
  with a b all i show ?thesis by auto
qed


lemma find_Some_pred: "find P xs = Some y \<Longrightarrow> P y"
  by (induction xs) (auto split: if_splits)

lemma findPage_id: "findPage p ws = Some pg \<Longrightarrow> page_id pg = p"
  unfolding findPage_def by (drule find_Some_pred) simp

lemma findPage_onPage:
  "(\<And>x. page_id x = p \<Longrightarrow> page_id (f x) = p) \<Longrightarrow>
   findPage p (onPage p f ws) = map_option f (findPage p ws)"
  by (simp add: findPage_def onPage_def find_modify_first)

lemma onPage_cong:
  "findPage p ws = Some pg \<Longrightarrow> f pg = g pg \<Longrightarrow> onPage p f ws = onPage p g ws"
  by (simp add: findPage_def onPage_def modify_first_cong_find [of _ _ pg f g])

lemma onPage_onPage:
  "(\<And>x. page_id x = p \<Longrightarrow> page_id (f x) = p) \<Longrightarrow>
   onPage p g (onPage p f ws) = onPage p (\<lambda>x. g (f x)) ws"
  by (simp add: onPage_def modify_first_twice)

lemma onPage_ws_updatedAt:
  "onPage p f (ws\<lparr>ws_updatedAt := t\<rparr>) = (onPage p f ws)\<lparr>ws_updatedAt := t\<rparr>"
  by (simp add: onPage_def)

lemma findPage_ws_updatedAt: "findPage p (ws\<lparr>ws_updatedAt := t\<rparr>) = findPage p ws"
  by (simp add: findPage_def)

lemma moveColumn_found:
  assumes "findPage p (workspace st) = Some pg"
    and "findIndex (\<lambda>col. col_id col = c) (columns (page_board pg)) = Some i"
  shows "moveColumn p c t clk st =
     st\<lparr>workspace :=
       (onPage p
          (\<lambda>x. pg\<lparr>page_board :=
                    \<lparr>columns = splice_insert t (columns (page_board pg) ! i)
                                 (splice_remove i (columns (page_board pg)))\<rparr>,
                  page_updatedAt := clk 0\<rparr>)
          (workspace st))
         \<lparr>ws_updatedAt := clk 1\<rparr>\<rparr>"
proof -
  have "onPage p (\<lambda>pa. pa\<lparr>page_board :=
                    \<lparr>columns = splice_insert t (columns (page_board pa) ! i)
                                 (splice_remove i (columns (page_board pa)))\<rparr>,
                  page_updatedAt := clk 0\<rparr>) (workspace st) =
        onPage p (\<lambda>x. pg\<lparr>page_board :=
                    \<lparr>columns = splice_insert t (columns (page_board pg) ! i)
                                 (splice_remove i (columns (page_board pg)))\<rparr>,
                  page_updatedAt := clk 0\<rparr>) (workspace st)"
    by (rule onPage_cong [OF assms(1)]) simp
  then show ?thesis using assms by (simp add: moveColumn_def)
qed

subsection \<open>A move to a column that does not exist\<close>

text \<open>
  The cards of a workspace as a multiset, and what the two phases of \<open>moveCard\<close> do to
  it: the first phase takes the captured card out, the second puts it back when it finds
  the target column, and does nothing when it does not.
\<close>

lemma mset_allCards:
  "mset (allCards ps) =
     (\<Sum>p\<leftarrow>ps. \<Sum>c\<leftarrow>columns (page_board p). mset (col_cards c))"
  by (induction ps) (simp_all add: allCards_def allColumns_def mset_concat comp_def)

lemma sum_list_modify_first:
  fixes h :: "'a \<Rightarrow> 'b multiset"
  shows "find P xs = Some y \<Longrightarrow>
    sum_list (map h (modify_first P f xs)) + h y = sum_list (map h xs) + h (f y)"
  by (induction xs) (auto split: if_splits)

lemma cards_onColumn:
  assumes "findColumnIn c pg = Some col"
  shows "(\<Sum>x\<leftarrow>columns (page_board (onColumn c f pg)). mset (col_cards x)) + mset (col_cards col) =
         (\<Sum>x\<leftarrow>columns (page_board pg). mset (col_cards x)) + mset (col_cards (f col))"
  using assms unfolding findColumnIn_def onColumn_def
  by (simp add: sum_list_modify_first [where h = "\<lambda>x. mset (col_cards x)"])

lemma cards_onPage:
  assumes "findPage p ws = Some pg"
  shows "mset (allCards (pages (onPage p f ws))) +
           (\<Sum>c\<leftarrow>columns (page_board pg). mset (col_cards c)) =
         mset (allCards (pages ws)) +
           (\<Sum>c\<leftarrow>columns (page_board (f pg)). mset (col_cards c))"
  using assms unfolding findPage_def onPage_def mset_allCards
  by (simp add: sum_list_modify_first
        [where h = "\<lambda>p. \<Sum>c\<leftarrow>columns (page_board p). mset (col_cards c)"])

lemma removeFromSource_None:
  "removeFromSource src clk ws = (ws1, None) \<Longrightarrow> ws1 = ws"
  by (auto simp: removeFromSource_def split: option.splits)

lemma removeFromSource_Some:
  assumes "removeFromSource src clk ws = (ws1, Some x)"
  shows "add_mset x (mset (allCards (pages ws1))) = mset (allCards (pages ws)) \<and>
         card_id x = src_cardId src"
proof -
  from assms obtain pg col i where
    pg: "findPage (src_pageId src) ws = Some pg" and
    col: "findColumnIn (src_columnId src) pg = Some col" and
    idx: "findIndex (\<lambda>k. card_id k = src_cardId src) (col_cards col) = Some i" and
    ws1: "ws1 = onPage (src_pageId src)
            (\<lambda>p. (onColumn (src_columnId src)
                     (\<lambda>c. c\<lparr>col_cards := splice_remove i (col_cards c), col_updatedAt := clk 0\<rparr>) p)
                   \<lparr>page_updatedAt := clk 1\<rparr>) ws" and
    x: "x = col_cards col ! i"
    by (auto simp: removeFromSource_def split: option.splits)
  let ?G = "\<lambda>c. c\<lparr>col_cards := splice_remove i (col_cards c), col_updatedAt := clk 0\<rparr>"
  let ?S = "\<lambda>p. \<Sum>c\<leftarrow>columns (page_board p). mset (col_cards c)"
  from findIndex_Some [OF idx] have i: "i < length (col_cards col)" and id: "card_id x = src_cardId src"
    by (simp_all add: x)
  have a: "mset (allCards (pages ws1)) + ?S pg =
      mset (allCards (pages ws)) + ?S (onColumn (src_columnId src) ?G pg)"
    using cards_onPage [OF pg, of "\<lambda>p. (onColumn (src_columnId src) ?G p)\<lparr>page_updatedAt := clk 1\<rparr>"]
    by (simp add: ws1 del: One_nat_def)
  have b: "?S (onColumn (src_columnId src) ?G pg) + mset (col_cards col) =
      ?S pg + mset (splice_remove i (col_cards col))"
    using cards_onColumn [OF col, of ?G] by simp
  have c: "add_mset x (mset (splice_remove i (col_cards col))) = mset (col_cards col)"
    unfolding x by (rule mset_splice_remove [OF i])
  let ?A1 = "mset (allCards (pages ws1))"
  let ?A = "mset (allCards (pages ws))"
  let ?S' = "?S (onColumn (src_columnId src) ?G pg)"
  let ?C = "mset (col_cards col)"
  let ?R = "mset (splice_remove i (col_cards col))"
  have "add_mset x ?A1 + ?S pg + ?C = add_mset x (?A1 + ?S pg) + ?C" by simp
  also have "\<dots> = add_mset x (?A + ?S') + ?C" by (simp only: a)
  also have "\<dots> = add_mset x ?A + (?S' + ?C)" by (simp only: ac_simps union_mset_add_mset_left)
  also have "\<dots> = add_mset x ?A + (?S pg + ?R)" by (simp only: b)
  also have "\<dots> = ?A + ?S pg + add_mset x ?R" by simp
  also have "\<dots> = ?A + ?S pg + ?C" by (simp only: c)
  finally have "add_mset x (mset (allCards (pages ws1))) + ?S pg + mset (col_cards col) =
      mset (allCards (pages ws)) + ?S pg + mset (col_cards col)" .
  then have "add_mset x (mset (allCards (pages ws1))) = mset (allCards (pages ws))"
    by simp
  with id show ?thesis by simp
qed

lemma addToTarget_found:
  assumes pg: "findPage (tgt_pageId tgt) ws = Some pg"
    and col: "findColumnIn (tgt_columnId tgt) pg = Some col"
  shows "mset (allCards (pages (addToTarget x tgt clk ws))) =
         add_mset (x\<lparr>card_columnId := tgt_columnId tgt, card_updatedAt := clk 2\<rparr>)
           (mset (allCards (pages ws)))"
proof -
  let ?x' = "x\<lparr>card_columnId := tgt_columnId tgt, card_updatedAt := clk 2\<rparr>"
  let ?idx = "case tgt_index tgt of None \<Rightarrow> int (length (col_cards col)) | Some i \<Rightarrow> i"
  let ?G = "\<lambda>c. c\<lparr>col_cards := splice_insert ?idx ?x' (col_cards c), col_updatedAt := clk 3\<rparr>"
  let ?F = "\<lambda>p. (onColumn (tgt_columnId tgt) ?G p)\<lparr>page_updatedAt := clk 4\<rparr>"
  let ?S = "\<lambda>p. \<Sum>c\<leftarrow>columns (page_board p). mset (col_cards c)"
  have eq: "addToTarget x tgt clk ws = onPage (tgt_pageId tgt) ?F ws"
    using pg col by (simp add: addToTarget_def Let_def)
  have a: "mset (allCards (pages (onPage (tgt_pageId tgt) ?F ws))) + ?S pg =
      mset (allCards (pages ws)) + ?S (onColumn (tgt_columnId tgt) ?G pg)"
    using cards_onPage [OF pg, of ?F] by simp
  have b: "?S (onColumn (tgt_columnId tgt) ?G pg) + mset (col_cards col) =
      ?S pg + add_mset ?x' (mset (col_cards col))"
    using cards_onColumn [OF col, of ?G] by (simp add: mset_splice_insert)
  let ?A2 = "mset (allCards (pages (onPage (tgt_pageId tgt) ?F ws)))"
  let ?A = "mset (allCards (pages ws))"
  let ?S' = "?S (onColumn (tgt_columnId tgt) ?G pg)"
  let ?C = "mset (col_cards col)"
  have "?A2 + ?S pg + ?C = (?A + ?S') + ?C" by (simp only: a)
  also have "\<dots> = ?A + (?S' + ?C)" by (simp only: ac_simps)
  also have "\<dots> = ?A + (?S pg + add_mset ?x' ?C)" by (simp only: b)
  also have "\<dots> = add_mset ?x' ?A + ?S pg + ?C" by simp
  finally have "?A2 + ?S pg + ?C = add_mset ?x' ?A + ?S pg + ?C" .
  then show ?thesis unfolding eq by simp
qed

lemma addToTarget_missing:
  assumes "findPage (tgt_pageId tgt) ws = None \<or>
           (\<exists>pg. findPage (tgt_pageId tgt) ws = Some pg \<and> findColumnIn (tgt_columnId tgt) pg = None)"
  shows "addToTarget x tgt clk ws = ws"
  using assms by (auto simp: addToTarget_def)

text \<open>
  When the source lookup fails, or the target column is found in the workspace as the
  first phase left it, \<open>moveCard\<close> keeps the multiset of card ids. When the card was
  captured and the target lookup fails, the card's id is missing afterwards.
\<close>

lemma moveCard_keeps_card_ids:
  assumes "removeFromSource src clk (workspace st) = (ws1, moved)"
    and "moved = None \<or>
         (\<exists>pg col. findPage (tgt_pageId tgt) ws1 = Some pg \<and> findColumnIn (tgt_columnId tgt) pg = Some col)"
  shows "mset (map card_id (allCards (pages (workspace (moveCard src tgt clk st))))) =
         mset (map card_id (allCards (pages (workspace st))))"
proof (cases moved)
  case None
  with assms(1) have "ws1 = workspace st" by (simp add: removeFromSource_None)
  with None assms(1) show ?thesis by (simp add: moveCard_def)
next
  case (Some x)
  with assms(2) obtain pg col where
    t: "findPage (tgt_pageId tgt) ws1 = Some pg" "findColumnIn (tgt_columnId tgt) pg = Some col"
    by auto
  let ?x' = "x\<lparr>card_columnId := tgt_columnId tgt, card_updatedAt := clk 2\<rparr>"
  from removeFromSource_Some [OF assms(1) [unfolded Some]]
  have a: "add_mset x (mset (allCards (pages ws1))) = mset (allCards (pages (workspace st)))" by simp
  have b: "mset (allCards (pages (addToTarget x tgt clk ws1))) = add_mset ?x' (mset (allCards (pages ws1)))"
    by (rule addToTarget_found [OF t])
  have "mset (map card_id (allCards (pages (addToTarget x tgt clk ws1)))) =
      add_mset (card_id x) (mset (map card_id (allCards (pages ws1))))"
    using arg_cong [OF b, of "image_mset card_id"] by simp
  moreover have "mset (map card_id (allCards (pages (workspace st)))) =
      add_mset (card_id x) (mset (map card_id (allCards (pages ws1))))"
    using arg_cong [OF a, of "image_mset card_id"] by simp
  ultimately show ?thesis using assms(1) Some by (simp add: moveCard_def)
qed

lemma moveCard_loses_card_id:
  assumes "removeFromSource src clk (workspace st) = (ws1, Some x)"
    and "findPage (tgt_pageId tgt) ws1 = None \<or>
         (\<exists>pg. findPage (tgt_pageId tgt) ws1 = Some pg \<and> findColumnIn (tgt_columnId tgt) pg = None)"
  shows "add_mset (src_cardId src)
           (mset (map card_id (allCards (pages (workspace (moveCard src tgt clk st)))))) =
         mset (map card_id (allCards (pages (workspace st))))"
proof -
  from removeFromSource_Some [OF assms(1)]
  have a: "add_mset x (mset (allCards (pages ws1))) = mset (allCards (pages (workspace st)))"
    and id: "card_id x = src_cardId src" by simp_all
  have "mset (map card_id (allCards (pages (workspace st)))) =
      add_mset (card_id x) (mset (map card_id (allCards (pages ws1))))"
    using arg_cong [OF a, of "image_mset card_id"] by simp
  then show ?thesis
    using assms(1) id by (simp add: moveCard_def addToTarget_missing [OF assms(2)])
qed

text \<open>
  Claim C1 on the default workspace. \<open>moveCard\<close> of the welcome card to a column id that
  names no column removes the card from its source column and inserts it nowhere: the
  workspace held the card \<open>card-k\<close> before the call and holds no card after it.
\<close>

theorem moveCard_missing_target_loses_card:
  "map card_id (allCards (pages (workspace exampleState))) = [''card-k''] \<and>
   map card_id (allCards (pages (workspace
     (moveCard \<lparr>src_pageId = ''page-p'', src_columnId = ''col-c'', src_cardId = ''card-k''\<rparr>
               \<lparr>tgt_pageId = ''page-p'', tgt_columnId = ''col-missing'', tgt_index = None\<rparr>
               (constClock 1) exampleState)))) = []"
  by code_simp

subsection \<open>Reordering columns\<close>

text \<open>
  Claim C10. For an existing page and a column found on it, \<open>moveColumn\<close> leaves the page
  with exactly the same columns as before, as a multiset: none added, none removed, none
  duplicated. This holds for every target index. When the target index is at least the
  length of the sequence after the removal, the moved column is the last one, behind the
  others in their old order.
\<close>

theorem moveColumn_permutes:
  assumes "findPage pageId (workspace st) = Some page"
    and "findIndex (\<lambda>col. col_id col = columnId) (columns (page_board page)) = Some i"
  shows "\<exists>page'. findPage pageId (workspace (moveColumn pageId columnId targetIndex clk st)) = Some page' \<and>
           mset (columns (page_board page')) = mset (columns (page_board page)) \<and>
           (int (length (columns (page_board page))) - 1 \<le> targetIndex \<longrightarrow>
              columns (page_board page') =
                splice_remove i (columns (page_board page)) @ [columns (page_board page) ! i])"
proof -
  let ?cols = "columns (page_board page)"
  let ?page' = "page\<lparr>page_board := \<lparr>columns = splice_insert targetIndex (?cols ! i) (splice_remove i ?cols)\<rparr>,
                     page_updatedAt := clk 0\<rparr>"
  from findIndex_Some [OF assms(2)] have i: "i < length ?cols" by simp
  have "findPage pageId (workspace (moveColumn pageId columnId targetIndex clk st)) = Some ?page'"
    using assms(1) findPage_id [OF assms(1)]
    by (simp add: moveColumn_found [OF assms] findPage_ws_updatedAt findPage_onPage)
  moreover have "mset (columns (page_board ?page')) = mset ?cols"
    using i by (simp add: mset_splice_insert mset_splice_remove)
  moreover have "int (length ?cols) - 1 \<le> targetIndex \<longrightarrow>
      columns (page_board ?page') = splice_remove i ?cols @ [?cols ! i]"
    using i by (auto simp: splice_insert_end length_splice_remove)
  ultimately show ?thesis by blast
qed

theorem moveColumn_permutes_witness:
  "findPage ''page-p'' (workspace exampleBoard) = Some (hd (pages (workspace exampleBoard))) \<and>
   findIndex (\<lambda>col. col_id col = ''col-c'')
     (columns (page_board (hd (pages (workspace exampleBoard))))) = Some 0 \<and>
   (\<exists>page'. findPage ''page-p'' (workspace (moveColumn ''page-p'' ''col-c'' 1 (constClock 2) exampleBoard)) =
              Some page' \<and>
            map col_id (columns (page_board page')) = [''col-d'', ''col-c''])"
proof -
  let ?page = "hd (pages (workspace exampleBoard))"
  have h1: "findPage ''page-p'' (workspace exampleBoard) = Some ?page"
    by code_simp
  have h2: "findIndex (\<lambda>col. col_id col = ''col-c'') (columns (page_board ?page)) = Some 0"
    by code_simp
  have cols: "map col_id (splice_remove 0 (columns (page_board ?page)) @ [columns (page_board ?page) ! 0]) =
      [''col-d'', ''col-c'']"
    by code_simp
  have len: "int (length (columns (page_board ?page))) - 1 \<le> 1"
    by code_simp
  from moveColumn_permutes [OF h1 h2, of 1 "constClock 2"] len
  obtain page' where
    "findPage ''page-p'' (workspace (moveColumn ''page-p'' ''col-c'' 1 (constClock 2) exampleBoard)) = Some page'"
    "columns (page_board page') =
       splice_remove 0 (columns (page_board ?page)) @ [columns (page_board ?page) ! 0]"
    by blast
  with cols h1 h2 show ?thesis by auto
qed

text \<open>
  Claim C5. On a page that holds exactly one column with the id, moving that column to
  index \<open>i\<close> and then to index \<open>j\<close> gives the state (and so the column sequence) that the
  single move to \<open>j\<close> gives, for all \<open>i\<close> and \<open>j\<close>; the sequence is the one without the
  moved column, with the column inserted at \<open>j\<close>.
\<close>

theorem moveColumn_twice:
  assumes "findPage pageId (workspace st) = Some page"
    and "length (filter (\<lambda>col. col_id col = columnId) (columns (page_board page))) = 1"
  shows "moveColumn pageId columnId j clk2 (moveColumn pageId columnId i clk1 st) =
           moveColumn pageId columnId j clk2 st \<and>
         (\<exists>page'. findPage pageId (workspace (moveColumn pageId columnId j clk2 st)) = Some page' \<and>
            columns (page_board page') =
              splice_insert j (hd (filter (\<lambda>col. col_id col = columnId) (columns (page_board page))))
                (filter (\<lambda>col. col_id col \<noteq> columnId) (columns (page_board page))))"
proof -
  let ?P = "\<lambda>col. col_id col = columnId"
  let ?cols = "columns (page_board page)"
  have "find ?P ?cols \<noteq> None"
    using assms(2) by (metis filter_empty_conv find_None_iff list.size(3) zero_neq_one)
  then obtain ci where ci: "findIndex ?P ?cols = Some ci"
    using findIndex_None_iff [of ?P ?cols] by (cases "findIndex ?P ?cols") auto
  let ?x = "?cols ! ci"
  let ?rest = "splice_remove ci ?cols"
  from findIndex_unique_filter [OF ci assms(2)]
  have fx: "filter ?P ?cols = [?x]" and rest: "?rest = filter (\<lambda>x. \<not> ?P x) ?cols" by auto
  have Px: "?P ?x" using findIndex_Some [OF ci] by simp
  have norest: "filter ?P ?rest = []" by (simp add: rest)
  have pid: "page_id page = pageId" by (rule findPage_id [OF assms(1)])
  let ?pg1 = "page\<lparr>page_board := \<lparr>columns = splice_insert i ?x ?rest\<rparr>, page_updatedAt := clk1 0\<rparr>"
  let ?st1 = "moveColumn pageId columnId i clk1 st"
  have st1: "?st1 = st\<lparr>workspace := (onPage pageId (\<lambda>x. ?pg1) (workspace st))\<lparr>ws_updatedAt := clk1 1\<rparr>\<rparr>"
    by (rule moveColumn_found [OF assms(1) ci])
  have f1: "findPage pageId (workspace ?st1) = Some ?pg1"
    using assms(1) pid by (simp add: st1 findPage_ws_updatedAt findPage_onPage)
  from reinsert_unique [OF Px norest, of i]
  obtain i' where i': "findIndex ?P (splice_insert i ?x ?rest) = Some i'"
    "splice_insert i ?x ?rest ! i' = ?x" "splice_remove i' (splice_insert i ?x ?rest) = ?rest"
    by blast
  have ci1: "findIndex ?P (columns (page_board ?pg1)) = Some i'" using i'(1) by simp
  have direct: "moveColumn pageId columnId j clk2 st =
      st\<lparr>workspace := (onPage pageId
          (\<lambda>x. page\<lparr>page_board := \<lparr>columns = splice_insert j ?x ?rest\<rparr>, page_updatedAt := clk2 0\<rparr>)
          (workspace st))\<lparr>ws_updatedAt := clk2 1\<rparr>\<rparr>"
    by (rule moveColumn_found [OF assms(1) ci])
  have "moveColumn pageId columnId j clk2 ?st1 = moveColumn pageId columnId j clk2 st"
    unfolding moveColumn_found [OF f1 ci1] direct
    using i'(2,3) pid by (simp add: st1 onPage_ws_updatedAt onPage_onPage)
  moreover have "findPage pageId (workspace (moveColumn pageId columnId j clk2 st)) =
      Some (page\<lparr>page_board := \<lparr>columns = splice_insert j ?x ?rest\<rparr>, page_updatedAt := clk2 0\<rparr>)"
    using assms(1) pid by (simp add: direct findPage_ws_updatedAt findPage_onPage)
  ultimately show ?thesis using fx rest by simp
qed


theorem moveColumn_twice_witness:
  "findPage ''page-p'' (workspace exampleBoard) = Some (hd (pages (workspace exampleBoard))) \<and>
   length (filter (\<lambda>col. col_id col = ''col-c'')
     (columns (page_board (hd (pages (workspace exampleBoard)))))) = 1 \<and>
   moveColumn ''page-p'' ''col-c'' 0 (constClock 3)
     (moveColumn ''page-p'' ''col-c'' 1 (constClock 2) exampleBoard) =
   moveColumn ''page-p'' ''col-c'' 0 (constClock 3) exampleBoard"
proof -
  let ?page = "hd (pages (workspace exampleBoard))"
  have h1: "findPage ''page-p'' (workspace exampleBoard) = Some ?page"
    by code_simp
  have h2: "length (filter (\<lambda>col. col_id col = ''col-c'') (columns (page_board ?page))) = 1"
    by code_simp
  from moveColumn_twice [OF h1 h2, of 0 "constClock 3" 1 "constClock 2"] h1 h2
  show ?thesis by blast
qed

lemma find_None_filter: "find P xs = None \<Longrightarrow> filter (\<lambda>x. \<not> P x) xs = xs"
  by (simp add: find_None_iff filter_id_conv)

lemma findColumnIn_id: "findColumnIn c pg = Some col \<Longrightarrow> col_id col = c"
  unfolding findColumnIn_def by (drule find_Some_pred) simp

lemma findColumnIn_onColumn:
  "(\<And>x. col_id x = c \<Longrightarrow> col_id (f x) = c) \<Longrightarrow>
   findColumnIn c (onColumn c f pg) = map_option f (findColumnIn c pg)"
  by (simp add: findColumnIn_def onColumn_def find_modify_first)

lemma findColumnIn_page_updatedAt:
  "findColumnIn c (pg\<lparr>page_updatedAt := t\<rparr>) = findColumnIn c pg"
  by (simp add: findColumnIn_def)

lemma onColumn_cong:
  "findColumnIn c pg = Some col \<Longrightarrow> f col = g col \<Longrightarrow> onColumn c f pg = onColumn c g pg"
  by (simp add: findColumnIn_def onColumn_def modify_first_cong_find [of _ _ col f g])

lemma onColumn_none: "findColumnIn c pg = None \<Longrightarrow> onColumn c f pg = pg"
  by (simp add: findColumnIn_def onColumn_def modify_first_none)

lemma onColumn_onColumn:
  "(\<And>x. col_id x = c \<Longrightarrow> col_id (f x) = c) \<Longrightarrow>
   onColumn c g (onColumn c f pg) = onColumn c (\<lambda>x. g (f x)) pg"
  by (simp add: onColumn_def modify_first_twice)

lemma onColumn_page_updatedAt:
  "onColumn c f (pg\<lparr>page_updatedAt := t\<rparr>) = (onColumn c f pg)\<lparr>page_updatedAt := t\<rparr>"
  by (simp add: onColumn_def)

lemma page_id_onColumn: "page_id (onColumn c f pg) = page_id pg"
  by (simp add: onColumn_def)

lemma col_id_onCard: "col_id (onCard k f col) = col_id col"
  by (simp add: onCard_def)

subsection \<open>Removing what is not there\<close>

text \<open>
  Claim C3, as the code has it. A removal that finds nothing removes nothing, but the
  entities the lookups did find are touched. \<open>removePage\<close> with an absent page id keeps
  the pages and the selection, sets the workspace's \<open>updatedAt\<close> to the clock, and
  re-derives \<open>activePageId\<close> when it equals the absent id. \<open>removeColumn\<close> and
  \<open>removeCard\<close> leave the state unchanged when the page is absent, and \<open>removeCard\<close> also
  when the column is absent. With the page present and the column absent, \<open>removeColumn\<close>
  only refreshes \<open>updatedAt\<close> of the page and the workspace. With page and column present
  and the card absent, \<open>removeCard\<close> only refreshes \<open>updatedAt\<close> of the column, the page
  and the workspace, and clears the selection when it equals the absent card id.
\<close>

theorem notFound_effects:
  "(findPage pageId1 (workspace st) = None \<longrightarrow>
      removePage pageId1 clk st =
        st\<lparr>workspace := (workspace st)
             \<lparr>activePageId :=
                (if activePageId (workspace st) = Some pageId1
                 then firstPageIdOrNull (pages (workspace st))
                 else activePageId (workspace st)),
              ws_updatedAt := clk 0\<rparr>\<rparr>) \<and>
   (findPage pageId2 (workspace st) = None \<longrightarrow> removeColumn pageId2 columnId2 clk st = st) \<and>
   (findPage pageId3 (workspace st) = Some page3 \<and> findColumnIn columnId3 page3 = None \<longrightarrow>
      removeColumn pageId3 columnId3 clk st =
        st\<lparr>workspace :=
             (onPage pageId3 (\<lambda>p. p\<lparr>page_updatedAt := clk 0\<rparr>) (workspace st))
               \<lparr>ws_updatedAt := clk 1\<rparr>\<rparr>) \<and>
   (findPage pageId4 (workspace st) = None \<longrightarrow> removeCard pageId4 columnId4 cardId4 clk st = st) \<and>
   (findPage pageId5 (workspace st) = Some page5 \<and> findColumnIn columnId5 page5 = None \<longrightarrow>
      removeCard pageId5 columnId5 cardId5 clk st = st) \<and>
   (findPage pageId6 (workspace st) = Some page6 \<and> findColumnIn columnId6 page6 = Some column6 \<and>
    findCardIn cardId6 column6 = None \<longrightarrow>
      removeCard pageId6 columnId6 cardId6 clk st =
        st\<lparr>workspace :=
             (onPage pageId6
                (\<lambda>p. (onColumn columnId6 (\<lambda>c. c\<lparr>col_updatedAt := clk 0\<rparr>) p)
                        \<lparr>page_updatedAt := clk 1\<rparr>)
                (workspace st))
               \<lparr>ws_updatedAt := clk 2\<rparr>,
           selectedCardId :=
             (if selectedCardId st = Some cardId6 then None else selectedCardId st)\<rparr>)"
proof -
  have p1: "removePage pageId1 clk st =
        st\<lparr>workspace := (workspace st)
             \<lparr>activePageId :=
                (if activePageId (workspace st) = Some pageId1
                 then firstPageIdOrNull (pages (workspace st))
                 else activePageId (workspace st)),
              ws_updatedAt := clk 0\<rparr>\<rparr>"
    if "findPage pageId1 (workspace st) = None"
  proof -
    from that have "filter (\<lambda>page. page_id page \<noteq> pageId1) (pages (workspace st)) = pages (workspace st)"
      unfolding findPage_def by (rule find_None_filter)
    then show ?thesis by (simp add: removePage_def Let_def)
  qed
  have p2: "removeColumn pageId2 columnId2 clk st = st" if "findPage pageId2 (workspace st) = None"
    using that by (simp add: removeColumn_def)
  have p3: "removeColumn pageId3 columnId3 clk st =
        st\<lparr>workspace :=
             (onPage pageId3 (\<lambda>p. p\<lparr>page_updatedAt := clk 0\<rparr>) (workspace st))
               \<lparr>ws_updatedAt := clk 1\<rparr>\<rparr>"
    if a: "findPage pageId3 (workspace st) = Some page3" and b: "findColumnIn columnId3 page3 = None"
  proof -
    from b have "filter (\<lambda>col. col_id col \<noteq> columnId3) (columns (page_board page3)) =
        columns (page_board page3)"
      unfolding findColumnIn_def by (rule find_None_filter)
    then have "onPage pageId3
        (\<lambda>p. p\<lparr>page_board := \<lparr>columns = filter (\<lambda>col. col_id col \<noteq> columnId3) (columns (page_board p))\<rparr>,
               page_updatedAt := clk 0\<rparr>) (workspace st) =
        onPage pageId3 (\<lambda>p. p\<lparr>page_updatedAt := clk 0\<rparr>) (workspace st)"
      by (intro onPage_cong [OF a]) simp
    then show ?thesis using a by (simp add: removeColumn_def)
  qed
  have p4: "removeCard pageId4 columnId4 cardId4 clk st = st"
    if "findPage pageId4 (workspace st) = None"
    using that by (simp add: removeCard_def)
  have p5: "removeCard pageId5 columnId5 cardId5 clk st = st"
    if "findPage pageId5 (workspace st) = Some page5" "findColumnIn columnId5 page5 = None"
    using that by (simp add: removeCard_def)
  have p6: "removeCard pageId6 columnId6 cardId6 clk st =
        st\<lparr>workspace :=
             (onPage pageId6
                (\<lambda>p. (onColumn columnId6 (\<lambda>c. c\<lparr>col_updatedAt := clk 0\<rparr>) p)
                        \<lparr>page_updatedAt := clk 1\<rparr>)
                (workspace st))
               \<lparr>ws_updatedAt := clk 2\<rparr>,
           selectedCardId :=
             (if selectedCardId st = Some cardId6 then None else selectedCardId st)\<rparr>"
    if a: "findPage pageId6 (workspace st) = Some page6"
      and b: "findColumnIn columnId6 page6 = Some column6"
      and c: "findCardIn cardId6 column6 = None"
  proof -
    from c have "filter (\<lambda>card. card_id card \<noteq> cardId6) (col_cards column6) = col_cards column6"
      unfolding findCardIn_def by (rule find_None_filter)
    then have "onColumn columnId6
          (\<lambda>c. c\<lparr>col_cards := filter (\<lambda>card. card_id card \<noteq> cardId6) (col_cards c),
                 col_updatedAt := clk 0\<rparr>) page6 =
        onColumn columnId6 (\<lambda>c. c\<lparr>col_updatedAt := clk 0\<rparr>) page6"
      by (intro onColumn_cong [OF b]) simp
    then have "onPage pageId6
          (\<lambda>p. (onColumn columnId6
                   (\<lambda>c. c\<lparr>col_cards := filter (\<lambda>card. card_id card \<noteq> cardId6) (col_cards c),
                          col_updatedAt := clk 0\<rparr>) p)\<lparr>page_updatedAt := clk 1\<rparr>) (workspace st) =
        onPage pageId6
          (\<lambda>p. (onColumn columnId6 (\<lambda>c. c\<lparr>col_updatedAt := clk 0\<rparr>) p)\<lparr>page_updatedAt := clk 1\<rparr>)
          (workspace st)"
      by (intro onPage_cong [OF a]) simp
    then show ?thesis using a b by (simp add: removeCard_def)
  qed
  from p1 p2 p3 p4 p5 p6 show ?thesis by blast
qed


theorem notFound_effects_witness:
  "findPage ''page-x'' (workspace exampleState) = None \<and>
   findPage ''page-p'' (workspace exampleState) = Some (hd (pages (workspace exampleState))) \<and>
   findColumnIn ''col-x'' (hd (pages (workspace exampleState))) = None \<and>
   findColumnIn ''col-c'' (hd (pages (workspace exampleState))) =
     Some (hd (columns (page_board (hd (pages (workspace exampleState)))))) \<and>
   findCardIn ''card-x'' (hd (columns (page_board (hd (pages (workspace exampleState)))))) = None \<and>
   pages (workspace (removePage ''page-x'' (constClock 1) exampleState)) = pages (workspace exampleState) \<and>
   ws_updatedAt (workspace (removePage ''page-x'' (constClock 1) exampleState)) = 1 \<and>
   removeColumn ''page-x'' ''col-c'' (constClock 1) exampleState = exampleState \<and>
   page_updatedAt (hd (pages (workspace (removeColumn ''page-p'' ''col-x'' (constClock 1) exampleState)))) = 1 \<and>
   removeCard ''page-x'' ''col-c'' ''card-k'' (constClock 1) exampleState = exampleState \<and>
   removeCard ''page-p'' ''col-x'' ''card-k'' (constClock 1) exampleState = exampleState \<and>
   allCards (pages (workspace (removeCard ''page-p'' ''col-c'' ''card-x'' (constClock 1) exampleState))) =
     allCards (pages (workspace exampleState))"
proof -
  let ?page = "hd (pages (workspace exampleState))"
  let ?col = "hd (columns (page_board ?page))"
  have h1: "findPage ''page-x'' (workspace exampleState) = None" by code_simp
  have h2: "findPage ''page-p'' (workspace exampleState) = Some ?page" by code_simp
  have h3: "findColumnIn ''col-x'' ?page = None" by code_simp
  have h4: "findColumnIn ''col-c'' ?page = Some ?col" by code_simp
  have h5: "findCardIn ''card-x'' ?col = None" by code_simp
  note t = notFound_effects [where st = exampleState and clk = "constClock 1"
      and ?pageId1.0 = "''page-x''" and ?pageId2.0 = "''page-x''" and ?columnId2.0 = "''col-c''"
      and ?pageId3.0 = "''page-p''" and ?columnId3.0 = "''col-x''" and ?page3.0 = ?page
      and ?pageId4.0 = "''page-x''" and ?columnId4.0 = "''col-c''" and ?cardId4.0 = "''card-k''"
      and ?pageId5.0 = "''page-p''" and ?columnId5.0 = "''col-x''" and ?cardId5.0 = "''card-k''" and ?page5.0 = ?page
      and ?pageId6.0 = "''page-p''" and ?columnId6.0 = "''col-c''" and ?cardId6.0 = "''card-x''"
      and ?page6.0 = ?page and ?column6.0 = ?col]
  from t h1 have r1: "removePage ''page-x'' (constClock 1) exampleState =
      exampleState\<lparr>workspace := (workspace exampleState)
             \<lparr>activePageId :=
                (if activePageId (workspace exampleState) = Some ''page-x''
                 then firstPageIdOrNull (pages (workspace exampleState))
                 else activePageId (workspace exampleState)),
              ws_updatedAt := constClock 1 0\<rparr>\<rparr>" by blast
  from t h1 have r2: "removeColumn ''page-x'' ''col-c'' (constClock 1) exampleState = exampleState" by blast
  from t h2 h3 have r3: "removeColumn ''page-p'' ''col-x'' (constClock 1) exampleState =
      exampleState\<lparr>workspace :=
             (onPage ''page-p'' (\<lambda>p. p\<lparr>page_updatedAt := constClock 1 0\<rparr>) (workspace exampleState))
               \<lparr>ws_updatedAt := constClock 1 1\<rparr>\<rparr>" by blast
  from t h1 have r4: "removeCard ''page-x'' ''col-c'' ''card-k'' (constClock 1) exampleState = exampleState" by blast
  from t h2 h3 have r5: "removeCard ''page-p'' ''col-x'' ''card-k'' (constClock 1) exampleState = exampleState" by blast
  from t h2 h4 h5 have r6: "removeCard ''page-p'' ''col-c'' ''card-x'' (constClock 1) exampleState =
        exampleState\<lparr>workspace :=
             (onPage ''page-p''
                (\<lambda>p. (onColumn ''col-c'' (\<lambda>c. c\<lparr>col_updatedAt := constClock 1 0\<rparr>) p)
                        \<lparr>page_updatedAt := constClock 1 1\<rparr>)
                (workspace exampleState))
               \<lparr>ws_updatedAt := constClock 1 2\<rparr>,
           selectedCardId :=
             (if selectedCardId exampleState = Some ''card-x'' then None else selectedCardId exampleState)\<rparr>" by blast
  have c1: "pages (workspace (removePage ''page-x'' (constClock 1) exampleState)) = pages (workspace exampleState)"
    unfolding r1 by simp
  have c2: "ws_updatedAt (workspace (removePage ''page-x'' (constClock 1) exampleState)) = 1"
    unfolding r1 by (simp add: constClock_def)
  have c3: "page_updatedAt (hd (pages (workspace (removeColumn ''page-p'' ''col-x'' (constClock 1) exampleState)))) = 1"
    unfolding r3 by code_simp
  have c6: "allCards (pages (workspace (removeCard ''page-p'' ''col-c'' ''card-x'' (constClock 1) exampleState))) =
     allCards (pages (workspace exampleState))"
    unfolding r6 by code_simp
  from h1 h2 h3 h4 h5 c1 c2 r2 c3 r4 r5 c6 show ?thesis by blast
qed

text \<open>
  \<open>removePage\<close> with a page id that is not in the default workspace changes the
  workspace's \<open>updatedAt\<close>, from 0 to the clock reading 1.
\<close>

theorem removePage_absent_counterexample:
  "findPage ''page-x'' (workspace exampleState) = None \<and>
   ws_updatedAt (workspace exampleState) = 0 \<and>
   ws_updatedAt (workspace (removePage ''page-x'' (constClock 1) exampleState)) = 1 \<and>
   removePage ''page-x'' (constClock 1) exampleState \<noteq> exampleState"
proof -
  have a: "findPage ''page-x'' (workspace exampleState) = None" by code_simp
  have b: "ws_updatedAt (workspace exampleState) = 0" by code_simp
  have c: "ws_updatedAt (workspace (removePage ''page-x'' (constClock 1) exampleState)) = 1"
    by code_simp
  from b c have "removePage ''page-x'' (constClock 1) exampleState \<noteq> exampleState"
    by (metis zero_neq_one)
  with a b c show ?thesis by simp
qed

lemma findCardIn_index:
  "findIndex (\<lambda>c. card_id c = k) (col_cards column) = Some i \<Longrightarrow>
   findCardIn k column = Some (col_cards column ! i)"
  unfolding findCardIn_def by (drule findIndex_Some) simp

lemma onCard_index:
  "findIndex (\<lambda>c. card_id c = k) (col_cards column) = Some i \<Longrightarrow>
   onCard k f column = column\<lparr>col_cards := (col_cards column)[i := f (col_cards column ! i)]\<rparr>"
  by (simp add: onCard_def modify_first_nth)

lemma splice_insert_remove:
  assumes "k < length xs"
  shows "splice_insert (int k) x (splice_remove k xs) = xs[k := x]"
proof -
  have len: "length (splice_remove k xs) = length xs - 1"
    using assms by (rule length_splice_remove)
  have st: "splice_start (int k) (length (splice_remove k xs)) = k"
    using assms len by (auto simp: splice_start_def)
  have "take k (splice_remove k xs) = take k xs" "drop k (splice_remove k xs) = drop (Suc k) xs"
    using assms by (simp_all add: splice_remove_def)
  then show ?thesis
    using assms by (simp add: splice_insert_def Let_def st upd_conv_take_nth_drop)
qed

lemma updateCard_found:
  assumes pg: "findPage pageId (workspace st) = Some page"
    and col: "findColumnIn columnId page = Some column"
    and idx: "findIndex (\<lambda>c. card_id c = cardId) (col_cards column) = Some i"
  shows "updateCard pageId columnId cardId updates clk st =
     st\<lparr>workspace :=
       (onPage pageId
          (\<lambda>p. (onColumn columnId
                   (\<lambda>c. column\<lparr>col_cards :=
                              (col_cards column)[i := assignCard (col_cards column ! i) updates (clk 0)],
                            col_updatedAt := clk 1\<rparr>) page)
                  \<lparr>page_updatedAt := clk 2\<rparr>)
          (workspace st))
         \<lparr>ws_updatedAt := clk 3\<rparr>\<rparr>"
proof -
  let ?G = "\<lambda>c. (onCard cardId (\<lambda>k. assignCard k updates (clk 0)) c)\<lparr>col_updatedAt := clk 1\<rparr>"
  let ?col' = "column\<lparr>col_cards :=
                              (col_cards column)[i := assignCard (col_cards column ! i) updates (clk 0)],
                            col_updatedAt := clk 1\<rparr>"
  have c: "onColumn columnId ?G page = onColumn columnId (\<lambda>c. ?col') page"
    by (rule onColumn_cong [OF col]) (simp add: onCard_index [OF idx])
  have "onPage pageId (\<lambda>p. (onColumn columnId ?G p)\<lparr>page_updatedAt := clk 2\<rparr>) (workspace st) =
        onPage pageId (\<lambda>p. (onColumn columnId (\<lambda>c. ?col') page)\<lparr>page_updatedAt := clk 2\<rparr>) (workspace st)"
    by (rule onPage_cong [OF pg]) (simp only: c)
  then show ?thesis
    using pg col findCardIn_index [OF idx] by (simp add: updateCard_def)
qed

subsection \<open>Timestamps after an edit\<close>

text \<open>
  Claim C7. When \<open>updateCard\<close> finds the page, the column and the card (at index \<open>i\<close> of
  the column), then after the call \<open>updatedAt\<close> of the card, of its column, of its page
  and of the workspace are the clock readings of the call; with a clock that is not
  behind the stored timestamps, each is later than or equal to its value before. The
  \<open>createdAt\<close> of the column, the page and the workspace are as before, and so is the
  card's unless the updates themselves carry a \<open>createdAt\<close>.
\<close>

theorem updateCard_cascade:
  assumes pg: "findPage pageId (workspace st) = Some page"
    and col: "findColumnIn columnId page = Some column"
    and idx: "findIndex (\<lambda>c. card_id c = cardId) (col_cards column) = Some i"
    and clock: "card_updatedAt (col_cards column ! i) \<le> clk 0" "col_updatedAt column \<le> clk 1"
      "page_updatedAt page \<le> clk 2" "ws_updatedAt (workspace st) \<le> clk 3"
  shows "\<exists>page' column'.
      findPage pageId (workspace (updateCard pageId columnId cardId updates clk st)) = Some page' \<and>
      findColumnIn columnId page' = Some column' \<and>
      card_updatedAt (col_cards column' ! i) = clk 0 \<and>
      col_updatedAt column' = clk 1 \<and>
      page_updatedAt page' = clk 2 \<and>
      ws_updatedAt (workspace (updateCard pageId columnId cardId updates clk st)) = clk 3 \<and>
      card_updatedAt (col_cards column ! i) \<le> card_updatedAt (col_cards column' ! i) \<and>
      col_updatedAt column \<le> col_updatedAt column' \<and>
      page_updatedAt page \<le> page_updatedAt page' \<and>
      ws_updatedAt (workspace st) \<le> ws_updatedAt (workspace (updateCard pageId columnId cardId updates clk st)) \<and>
      card_createdAt (col_cards column' ! i) =
        assignField (u_createdAt updates) (card_createdAt (col_cards column ! i)) \<and>
      col_createdAt column' = col_createdAt column \<and>
      page_createdAt page' = page_createdAt page \<and>
      ws_createdAt (workspace (updateCard pageId columnId cardId updates clk st)) = ws_createdAt (workspace st)"
proof -
  let ?col' = "column\<lparr>col_cards :=
                              (col_cards column)[i := assignCard (col_cards column ! i) updates (clk 0)],
                            col_updatedAt := clk 1\<rparr>"
  let ?page' = "(onColumn columnId (\<lambda>c. ?col') page)\<lparr>page_updatedAt := clk 2\<rparr>"
  let ?st' = "updateCard pageId columnId cardId updates clk st"
  note eq = updateCard_found [OF pg col idx, of updates clk]
  have i: "i < length (col_cards column)" using findIndex_Some [OF idx] by simp
  have a: "findPage pageId (workspace ?st') = Some ?page'"
    using pg findPage_id [OF pg]
    by (simp add: eq findPage_ws_updatedAt findPage_onPage page_id_onColumn)
  have b: "findColumnIn columnId ?page' = Some ?col'"
    using col findColumnIn_id [OF col]
    by (simp add: findColumnIn_page_updatedAt findColumnIn_onColumn)
  have c: "ws_updatedAt (workspace ?st') = clk 3" "ws_createdAt (workspace ?st') = ws_createdAt (workspace st)"
    by (simp_all add: eq onPage_def)
  have d: "card_updatedAt (col_cards ?col' ! i) = clk 0"
    "card_createdAt (col_cards ?col' ! i) = assignField (u_createdAt updates) (card_createdAt (col_cards column ! i))"
    using i by (simp_all add: assignCard_def)
  have e: "col_updatedAt ?col' = clk 1" "col_createdAt ?col' = col_createdAt column"
    "page_updatedAt ?page' = clk 2" "page_createdAt ?page' = page_createdAt page"
    by (simp_all add: onColumn_def)
  show ?thesis
    apply (rule exI [of _ ?page'], rule exI [of _ ?col'])
    using a b c d e clock by simp
qed


theorem updateCard_cascade_witness:
  "findPage ''page-p'' (workspace exampleState) = Some (hd (pages (workspace exampleState))) \<and>
   findColumnIn ''col-c'' (hd (pages (workspace exampleState))) =
     Some (hd (columns (page_board (hd (pages (workspace exampleState)))))) \<and>
   findIndex (\<lambda>c. card_id c = ''card-k'')
     (col_cards (hd (columns (page_board (hd (pages (workspace exampleState))))))) = Some 0 \<and>
   card_updatedAt (col_cards (hd (columns (page_board (hd (pages (workspace exampleState)))))) ! 0)
     \<le> constClock 5 0 \<and>
   col_updatedAt (hd (columns (page_board (hd (pages (workspace exampleState)))))) \<le> constClock 5 1 \<and>
   page_updatedAt (hd (pages (workspace exampleState))) \<le> constClock 5 2 \<and>
   ws_updatedAt (workspace exampleState) \<le> constClock 5 3 \<and>
   ws_updatedAt (workspace (updateCard ''page-p'' ''col-c'' ''card-k''
      (noUpdates\<lparr>u_title := Some ''Hello''\<rparr>) (constClock 5) exampleState)) = 5 \<and>
   (\<exists>page' column'.
      findPage ''page-p'' (workspace (updateCard ''page-p'' ''col-c'' ''card-k''
        (noUpdates\<lparr>u_title := Some ''Hello''\<rparr>) (constClock 5) exampleState)) = Some page' \<and>
      findColumnIn ''col-c'' page' = Some column' \<and>
      card_updatedAt (col_cards column' ! 0) = 5 \<and>
      col_updatedAt column' = 5 \<and>
      page_updatedAt page' = 5 \<and>
      card_createdAt (col_cards column' ! 0) = 0)"
proof -
  let ?page = "hd (pages (workspace exampleState))"
  let ?col = "hd (columns (page_board ?page))"
  let ?u = "noUpdates\<lparr>u_title := Some ''Hello''\<rparr>"
  have h1: "findPage ''page-p'' (workspace exampleState) = Some ?page" by code_simp
  have h2: "findColumnIn ''col-c'' ?page = Some ?col" by code_simp
  have h3: "findIndex (\<lambda>c. card_id c = ''card-k'') (col_cards ?col) = Some 0" by code_simp
  have h4: "card_updatedAt (col_cards ?col ! 0) \<le> constClock 5 0" by code_simp
  have h5: "col_updatedAt ?col \<le> constClock 5 1" by code_simp
  have h6: "page_updatedAt ?page \<le> constClock 5 2" by code_simp
  have h7: "ws_updatedAt (workspace exampleState) \<le> constClock 5 3" by code_simp
  have cr: "assignField (u_createdAt ?u) (card_createdAt (col_cards ?col ! 0)) = 0" by code_simp
  have cc: "constClock 5 0 = 5" "constClock 5 1 = 5" "constClock 5 2 = 5" "constClock 5 3 = 5"
    by (simp_all add: constClock_def)
  from updateCard_cascade [OF h1 h2 h3 h4 h5 h6 h7, of ?u]
  obtain page' column' where r:
    "findPage ''page-p'' (workspace (updateCard ''page-p'' ''col-c'' ''card-k'' ?u (constClock 5) exampleState)) =
       Some page'"
    "findColumnIn ''col-c'' page' = Some column'"
    "card_updatedAt (col_cards column' ! 0) = constClock 5 0"
    "col_updatedAt column' = constClock 5 1"
    "page_updatedAt page' = constClock 5 2"
    "ws_updatedAt (workspace (updateCard ''page-p'' ''col-c'' ''card-k'' ?u (constClock 5) exampleState)) =
       constClock 5 3"
    "card_createdAt (col_cards column' ! 0) =
       assignField (u_createdAt ?u) (card_createdAt (col_cards ?col ! 0))"
    by blast
  note r' = r [unfolded cc cr]
  have ex: "\<exists>page' column'.
      findPage ''page-p'' (workspace (updateCard ''page-p'' ''col-c'' ''card-k'' ?u (constClock 5) exampleState)) =
        Some page' \<and>
      findColumnIn ''col-c'' page' = Some column' \<and>
      card_updatedAt (col_cards column' ! 0) = 5 \<and>
      col_updatedAt column' = 5 \<and>
      page_updatedAt page' = 5 \<and>
      card_createdAt (col_cards column' ! 0) = 0"
    using r' by blast
  from h1 h2 h3 h4 h5 h6 h7 r'(6) ex show ?thesis by blast
qed

lemma findPage_onPage_const:
  "findPage p ws = Some pg \<Longrightarrow> page_id pg' = p \<Longrightarrow> findPage p (onPage p (\<lambda>x. pg') ws) = Some pg'"
  by (simp add: findPage_onPage)

lemma findColumnIn_onColumn_const:
  "findColumnIn c pg = Some col \<Longrightarrow> col_id col' = c \<Longrightarrow>
   findColumnIn c (onColumn c (\<lambda>x. col') pg) = Some col'"
  by (simp add: findColumnIn_onColumn)

lemma onColumn_const_twice:
  "col_id col1 = c \<Longrightarrow>
   onColumn c (\<lambda>x. col2) ((onColumn c (\<lambda>x. col1) pg)\<lparr>page_updatedAt := t\<rparr>) =
   (onColumn c (\<lambda>x. col2) pg)\<lparr>page_updatedAt := t\<rparr>"
  by (simp add: onColumn_page_updatedAt onColumn_onColumn)

subsection \<open>Moving a card to where it is\<close>

text \<open>
  Claim C6, as the code has it. Let the lookups of \<open>moveCard\<close> resolve the page id to
  \<open>page\<close>, the column id to \<open>column\<close> and the card id to index \<open>k\<close> of that column, and
  let the card's \<open>columnId\<close> be the column's id. Then moving the card to index \<open>k\<close> of the
  same column gives the state it started from with \<open>updatedAt\<close> refreshed on the card,
  the column, the page and the workspace, and nothing else changed.
\<close>

theorem moveCard_identity:
  assumes pg: "findPage pageId (workspace st) = Some page"
    and col: "findColumnIn columnId page = Some column"
    and idx: "findIndex (\<lambda>c. card_id c = cardId) (col_cards column) = Some k"
    and fk: "card_columnId (col_cards column ! k) = columnId"
  shows "moveCard \<lparr>src_pageId = pageId, src_columnId = columnId, src_cardId = cardId\<rparr>
           \<lparr>tgt_pageId = pageId, tgt_columnId = columnId, tgt_index = Some (int k)\<rparr> clk st =
         st\<lparr>workspace :=
           (onPage pageId
              (\<lambda>p. (onColumn columnId
                       (\<lambda>c. (onCard cardId (\<lambda>x. x\<lparr>card_updatedAt := clk 2\<rparr>) c)
                              \<lparr>col_updatedAt := clk 3\<rparr>) p)
                      \<lparr>page_updatedAt := clk 4\<rparr>)
              (workspace st))
             \<lparr>ws_updatedAt := clk 5\<rparr>\<rparr>"
proof -
  let ?src = "\<lparr>src_pageId = pageId, src_columnId = columnId, src_cardId = cardId\<rparr>"
  let ?tgt = "\<lparr>tgt_pageId = pageId, tgt_columnId = columnId, tgt_index = Some (int k)\<rparr>"
  let ?cards = "col_cards column"
  let ?x = "?cards ! k"
  let ?col1 = "column\<lparr>col_cards := splice_remove k ?cards, col_updatedAt := clk 0\<rparr>"
  let ?page1 = "(onColumn columnId (\<lambda>c. ?col1) page)\<lparr>page_updatedAt := clk 1\<rparr>"
  let ?ws1 = "onPage pageId (\<lambda>p. ?page1) (workspace st)"
  let ?x' = "?x\<lparr>card_updatedAt := clk 2\<rparr>"
  let ?col2 = "column\<lparr>col_cards := ?cards[k := ?x'], col_updatedAt := clk 3\<rparr>"
  let ?page2 = "(onColumn columnId (\<lambda>c. ?col2) page)\<lparr>page_updatedAt := clk 4\<rparr>"
  have k: "k < length ?cards" using findIndex_Some [OF idx] by simp
  have pid: "page_id page = pageId" by (rule findPage_id [OF pg])
  have cid: "col_id column = columnId" by (rule findColumnIn_id [OF col])
  \<comment> \<open>first phase\<close>
  have c1: "onColumn columnId (\<lambda>c. c\<lparr>col_cards := splice_remove k (col_cards c), col_updatedAt := clk 0\<rparr>) page =
      onColumn columnId (\<lambda>c. ?col1) page"
    by (rule onColumn_cong [OF col]) simp
  have p1: "onPage pageId
        (\<lambda>p. (onColumn columnId
                 (\<lambda>c. c\<lparr>col_cards := splice_remove k (col_cards c), col_updatedAt := clk 0\<rparr>) p)
               \<lparr>page_updatedAt := clk 1\<rparr>) (workspace st) = ?ws1"
    by (rule onPage_cong [OF pg]) (simp only: c1)
  have phase1: "removeFromSource ?src clk (workspace st) = (?ws1, Some ?x)"
    using pg col idx by (simp add: removeFromSource_def p1 del: One_nat_def)
  \<comment> \<open>second phase\<close>
  have f1: "findPage pageId ?ws1 = Some ?page1"
    by (rule findPage_onPage_const [OF pg]) (simp add: page_id_onColumn pid del: One_nat_def)
  have f2: "findColumnIn columnId ?page1 = Some ?col1"
    using findColumnIn_onColumn_const [OF col, of ?col1] cid
    by (simp add: findColumnIn_page_updatedAt del: One_nat_def)
  have x': "?x\<lparr>card_columnId := columnId, card_updatedAt := clk 2\<rparr> = ?x'"
    using fk by (metis Card.update_convs(4) Card.surjective Card.select_convs(4))
  have ins: "splice_insert (int k) ?x' (splice_remove k ?cards) = ?cards[k := ?x']"
    by (rule splice_insert_remove [OF k])
  have c2: "onColumn columnId
        (\<lambda>c. c\<lparr>col_cards := splice_insert (int k) ?x' (col_cards c), col_updatedAt := clk 3\<rparr>) ?page1 =
      onColumn columnId (\<lambda>c. ?col2) ?page1"
    by (rule onColumn_cong [OF f2]) (simp add: ins)
  have c2': "onColumn columnId (\<lambda>c. ?col2) ?page1 =
      (onColumn columnId (\<lambda>c. ?col2) page)\<lparr>page_updatedAt := clk 1\<rparr>"
    using cid by (simp add: onColumn_const_twice del: One_nat_def)
  have p2: "onPage pageId
        (\<lambda>p. (onColumn columnId
                 (\<lambda>c. c\<lparr>col_cards := splice_insert (int k) ?x' (col_cards c), col_updatedAt := clk 3\<rparr>) p)
               \<lparr>page_updatedAt := clk 4\<rparr>) ?ws1 =
      onPage pageId (\<lambda>p. ?page2) ?ws1"
    by (rule onPage_cong [OF f1]) (simp only: c2 c2', simp)
  have p2': "onPage pageId (\<lambda>p. ?page2) ?ws1 = onPage pageId (\<lambda>p. ?page2) (workspace st)"
    by (simp add: onPage_onPage page_id_onColumn pid del: One_nat_def)
  have phase2: "addToTarget ?x ?tgt clk ?ws1 = onPage pageId (\<lambda>p. ?page2) (workspace st)"
    using f1 f2 by (simp add: addToTarget_def Let_def x' p2 p2' del: One_nat_def)
  have lhs: "moveCard ?src ?tgt clk st =
      st\<lparr>workspace := (onPage pageId (\<lambda>p. ?page2) (workspace st))\<lparr>ws_updatedAt := clk 5\<rparr>\<rparr>"
    by (simp add: moveCard_def phase1 phase2 del: One_nat_def)
  \<comment> \<open>the refreshed state\<close>
  have r1: "onColumn columnId
        (\<lambda>c. (onCard cardId (\<lambda>x. x\<lparr>card_updatedAt := clk 2\<rparr>) c)\<lparr>col_updatedAt := clk 3\<rparr>) page =
      onColumn columnId (\<lambda>c. ?col2) page"
    by (rule onColumn_cong [OF col]) (simp add: onCard_index [OF idx])
  have rhs: "onPage pageId
        (\<lambda>p. (onColumn columnId
                 (\<lambda>c. (onCard cardId (\<lambda>x. x\<lparr>card_updatedAt := clk 2\<rparr>) c)\<lparr>col_updatedAt := clk 3\<rparr>) p)
               \<lparr>page_updatedAt := clk 4\<rparr>) (workspace st) =
      onPage pageId (\<lambda>p. ?page2) (workspace st)"
    by (rule onPage_cong [OF pg]) (simp only: r1)
  show ?thesis by (simp only: lhs rhs)
qed

theorem moveCard_identity_witness:
  "findPage ''page-p'' (workspace exampleState) = Some (hd (pages (workspace exampleState))) \<and>
   findColumnIn ''col-c'' (hd (pages (workspace exampleState))) =
     Some (hd (columns (page_board (hd (pages (workspace exampleState)))))) \<and>
   findIndex (\<lambda>c. card_id c = ''card-k'')
     (col_cards (hd (columns (page_board (hd (pages (workspace exampleState))))))) = Some 0 \<and>
   card_columnId (col_cards (hd (columns (page_board (hd (pages (workspace exampleState)))))) ! 0) =
     ''col-c'' \<and>
   moveCard \<lparr>src_pageId = ''page-p'', src_columnId = ''col-c'', src_cardId = ''card-k''\<rparr>
     \<lparr>tgt_pageId = ''page-p'', tgt_columnId = ''col-c'', tgt_index = Some 0\<rparr> (constClock 9) exampleState =
   exampleState\<lparr>workspace :=
           (onPage ''page-p''
              (\<lambda>p. (onColumn ''col-c''
                       (\<lambda>c. (onCard ''card-k'' (\<lambda>x. x\<lparr>card_updatedAt := constClock 9 2\<rparr>) c)
                              \<lparr>col_updatedAt := constClock 9 3\<rparr>) p)
                      \<lparr>page_updatedAt := constClock 9 4\<rparr>)
              (workspace exampleState))
             \<lparr>ws_updatedAt := constClock 9 5\<rparr>\<rparr>"
proof -
  let ?page = "hd (pages (workspace exampleState))"
  let ?col = "hd (columns (page_board ?page))"
  have h1: "findPage ''page-p'' (workspace exampleState) = Some ?page" by code_simp
  have h2: "findColumnIn ''col-c'' ?page = Some ?col" by code_simp
  have h3: "findIndex (\<lambda>c. card_id c = ''card-k'') (col_cards ?col) = Some 0" by code_simp
  have h4: "card_columnId (col_cards ?col ! 0) = ''col-c''" by code_simp
  from moveCard_identity [OF h1 h2 h3 h4, of "constClock 9"] h1 h2 h3 h4
  show ?thesis by simp
qed

text \<open>
  After \<open>updateCard\<close> has overwritten the card's \<open>columnId\<close> with \<open>col-z\<close>, the card is
  still at index 0 of column \<open>col-c\<close> on page \<open>page-p\<close>; moving it to that very place
  changes its \<open>columnId\<close> to \<open>col-c\<close>.
\<close>

theorem moveCard_identity_counterexample:
  "findIndex (\<lambda>c. card_id c = ''card-k'')
     (col_cards (hd (columns (page_board (hd (pages (workspace exampleDrift))))))) = Some 0 \<and>
   map col_id (columns (page_board (hd (pages (workspace exampleDrift))))) = [''col-c''] \<and>
   map page_id (pages (workspace exampleDrift)) = [''page-p''] \<and>
   map card_columnId (allCards (pages (workspace exampleDrift))) = [''col-z''] \<and>
   map card_columnId (allCards (pages (workspace
     (moveCard \<lparr>src_pageId = ''page-p'', src_columnId = ''col-c'', src_cardId = ''card-k''\<rparr>
        \<lparr>tgt_pageId = ''page-p'', tgt_columnId = ''col-c'', tgt_index = Some 0\<rparr> (constClock 2)
        exampleDrift)))) = [''col-c'']"
  by code_simp

subsection \<open>Page ids of reachable states\<close>

text \<open>
  No store operation changes the id of a page, and \<open>addPage\<close> gives a new page an id that
  starts with \<open>page-\<close>. So no page of a reachable state has the empty string as its id.
\<close>

lemma map_modify_first:
  "(\<And>x. P x \<Longrightarrow> h (f x) = h x) \<Longrightarrow> map h (modify_first P f xs) = map h xs"
  by (induction xs) auto

lemma page_ids_onPage:
  assumes "\<And>x. page_id x = p \<Longrightarrow> page_id (f x) = p"
  shows "map page_id (pages (onPage p f ws)) = map page_id (pages ws)"
proof -
  have "map page_id (modify_first (\<lambda>x. page_id x = p) f (pages ws)) = map page_id (pages ws)"
    by (rule map_modify_first) (simp add: assms)
  then show ?thesis by (simp add: onPage_def)
qed

lemma page_ids_removeFromSource:
  "map page_id (pages (fst (removeFromSource src clk ws))) = map page_id (pages ws)"
  by (simp add: removeFromSource_def page_ids_onPage page_id_onColumn
      split: option.splits)

lemma page_ids_addToTarget:
  "map page_id (pages (addToTarget k tgt clk ws)) = map page_id (pages ws)"
  by (simp add: addToTarget_def Let_def page_ids_onPage page_id_onColumn
      split: option.splits)

lemma page_ids_moveCard:
  "map page_id (pages (workspace (moveCard src tgt clk st))) = map page_id (pages (workspace st))"
  by (cases "removeFromSource src clk (workspace st)")
     (simp add: moveCard_def page_ids_addToTarget
        page_ids_removeFromSource [of src clk "workspace st", simplified]
        split: option.splits, metis fst_conv page_ids_removeFromSource page_ids_addToTarget)

lemma page_ids_apply_op:
  "set (map page_id (pages (workspace (apply_op opn g clk st)))) \<subseteq>
   insert (''page-'' @ g) (set (map page_id (pages (workspace st))))"
proof (cases opn)
  case (AddPage title icon)
  then show ?thesis by (auto simp: addPage_def Let_def)
next
  case (RemovePage pageId)
  then show ?thesis by (auto simp: removePage_def Let_def)
next
  case (MoveCard src tgt)
  then show ?thesis by (simp only: apply_op.simps page_ids_moveCard) auto
next
  case (SetWorkspaceTitle title)
  then show ?thesis by (auto simp: setWorkspaceTitle_def)
next
  case (SetActivePage pageId)
  then show ?thesis by (auto simp: setActivePage_def)
next
  case (SetSelectedCardId cardId)
  then show ?thesis by (auto simp: setSelectedCardId_def)
next
  case (RenamePage pageId title)
  have "map page_id (pages (workspace (renamePage pageId title clk st))) =
      map page_id (pages (workspace st))"
    by (simp add: renamePage_def page_ids_onPage split: option.splits)
  with RenamePage show ?thesis by (simp only: apply_op.simps) auto
next
  case (UpdatePageIcon pageId icon)
  have "map page_id (pages (workspace (updatePageIcon pageId icon clk st))) =
      map page_id (pages (workspace st))"
    by (simp add: updatePageIcon_def page_ids_onPage split: option.splits)
  with UpdatePageIcon show ?thesis by (simp only: apply_op.simps) auto
next
  case (AddColumn pageId title)
  have "map page_id (pages (workspace (addColumn pageId title g clk st))) =
      map page_id (pages (workspace st))"
    by (simp add: addColumn_def Let_def page_ids_onPage split: option.splits)
  with AddColumn show ?thesis by (simp only: apply_op.simps) auto
next
  case (RemoveColumn pageId columnId)
  have "map page_id (pages (workspace (removeColumn pageId columnId clk st))) =
      map page_id (pages (workspace st))"
    by (simp add: removeColumn_def page_ids_onPage split: option.splits)
  with RemoveColumn show ?thesis by (simp only: apply_op.simps) auto
next
  case (RenameColumn pageId columnId title)
  have "map page_id (pages (workspace (renameColumn pageId columnId title clk st))) =
      map page_id (pages (workspace st))"
    by (simp add: renameColumn_def page_ids_onPage page_id_onColumn split: option.splits)
  with RenameColumn show ?thesis by (simp only: apply_op.simps) auto
next
  case (MoveColumn pageId columnId targetIndex)
  have "map page_id (pages (workspace (moveColumn pageId columnId targetIndex clk st))) =
      map page_id (pages (workspace st))"
    by (simp add: moveColumn_def page_ids_onPage split: option.splits)
  with MoveColumn show ?thesis by (simp only: apply_op.simps) auto
next
  case (AddCard pageId columnId title description)
  have "map page_id (pages (workspace (addCard pageId columnId title description g clk st))) =
      map page_id (pages (workspace st))"
    by (simp add: addCard_def Let_def page_ids_onPage page_id_onColumn split: option.splits)
  with AddCard show ?thesis by (simp only: apply_op.simps) auto
next
  case (RemoveCard pageId columnId cardId)
  have "map page_id (pages (workspace (removeCard pageId columnId cardId clk st))) =
      map page_id (pages (workspace st))"
    by (simp add: removeCard_def page_ids_onPage page_id_onColumn split: option.splits)
  with RemoveCard show ?thesis by (simp only: apply_op.simps) auto
next
  case (UpdateCard pageId columnId cardId updates)
  have "map page_id (pages (workspace (updateCard pageId columnId cardId updates clk st))) =
      map page_id (pages (workspace st))"
    by (simp add: updateCard_def page_ids_onPage page_id_onColumn split: option.splits)
  with UpdateCard show ?thesis by (simp only: apply_op.simps) auto
qed

lemma reachableVia_page_ids:
  "reachableVia allowed st \<Longrightarrow> [] \<notin> set (map page_id (pages (workspace st)))"
proof (induction rule: reachableVia.induct)
  case (initial g1 g2 g3 clk)
  show ?case by (simp add: initialState_def createDefaultWorkspace_def Let_def)
next
  case (step st opn g clk)
  then show ?case using page_ids_apply_op [of opn g clk st] by auto
qed


subsection \<open>Removing the active page\<close>

lemma find_Some_mem: "find P xs = Some y \<Longrightarrow> y \<in> set xs"
  by (induction xs) (auto split: if_splits)

text \<open>
  Claim C4. In a state of the store whose \<open>activePageId\<close> names a page present in
  \<open>pages\<close>, \<open>removePage(activePageId)\<close> leaves as pages the pages whose id differs from
  it, in their order, makes \<open>activePageId\<close> the id of the first of them, or \<open>null\<close> if
  there is none, sets the workspace's \<open>updatedAt\<close> and changes nothing else. After
  \<open>removePage\<close> of any page id, the pages are those whose id differs from it, and
  \<open>activePageId\<close> is \<open>null\<close> or the id of one of them.
\<close>

theorem removePage_active:
  assumes "reachable st"
    and "activePageId (workspace st) = Some a"
    and "findPage a (workspace st) = Some page"
  shows "removePage a clk st =
           st\<lparr>workspace := (workspace st)
                \<lparr>pages := filter (\<lambda>p. page_id p \<noteq> a) (pages (workspace st)),
                 activePageId :=
                   (case filter (\<lambda>p. page_id p \<noteq> a) (pages (workspace st)) of
                      [] \<Rightarrow> None
                    | p # ps \<Rightarrow> Some (page_id p)),
                 ws_updatedAt := clk 0\<rparr>\<rparr> \<and>
         pages (workspace (removePage pageId clk' st)) =
           filter (\<lambda>p. page_id p \<noteq> pageId) (pages (workspace st)) \<and>
         (case activePageId (workspace (removePage pageId clk' st)) of
            None \<Rightarrow> True
          | Some b \<Rightarrow>
              b \<in> set (map page_id (filter (\<lambda>p. page_id p \<noteq> pageId) (pages (workspace st)))))"
proof -
  let ?ps = "pages (workspace st)"
  have ne: "[] \<notin> set (map page_id ?ps)"
    using assms(1) unfolding reachable_def by (rule reachableVia_page_ids)
  have first: "firstPageIdOrNull (filter (\<lambda>p. page_id p \<noteq> x) ?ps) =
      (case filter (\<lambda>p. page_id p \<noteq> x) ?ps of [] \<Rightarrow> None | p # ps \<Rightarrow> Some (page_id p))" for x
  proof (cases "filter (\<lambda>p. page_id p \<noteq> x) ?ps")
    case Nil
    then show ?thesis by (simp add: firstPageIdOrNull_def)
  next
    case (Cons p ps)
    then have "p \<in> set ?ps" by (metis filter_is_subset list.set_intros(1) subsetD)
    with ne have "page_id p \<noteq> []" by (metis image_eqI set_map)
    with Cons show ?thesis by (simp add: firstPageIdOrNull_def)
  qed
  have part1: "removePage a clk st =
           st\<lparr>workspace := (workspace st)
                \<lparr>pages := filter (\<lambda>p. page_id p \<noteq> a) ?ps,
                 activePageId :=
                   (case filter (\<lambda>p. page_id p \<noteq> a) ?ps of
                      [] \<Rightarrow> None
                    | p # ps \<Rightarrow> Some (page_id p)),
                 ws_updatedAt := clk 0\<rparr>\<rparr>"
    using assms(2) by (simp add: removePage_def Let_def first)
  have part2: "pages (workspace (removePage pageId clk' st)) = filter (\<lambda>p. page_id p \<noteq> pageId) ?ps"
    by (simp add: removePage_def Let_def)
  have part3: "case activePageId (workspace (removePage pageId clk' st)) of
            None \<Rightarrow> True
          | Some b \<Rightarrow> b \<in> set (map page_id (filter (\<lambda>p. page_id p \<noteq> pageId) ?ps))"
  proof (cases "pageId = a")
    case True
    show ?thesis
      using assms(2) True
      by (simp add: removePage_def Let_def first split: list.splits option.splits)
  next
    case False
    from assms(3) have "page \<in> set ?ps" "page_id page = a"
      unfolding findPage_def by (auto dest: find_Some_mem find_Some_pred)
    with False have "a \<in> set (map page_id (filter (\<lambda>p. page_id p \<noteq> pageId) ?ps))"
      by auto
    with assms(2) False show ?thesis by (simp add: removePage_def Let_def)
  qed
  from part1 part2 part3 show ?thesis by blast
qed

lemma exampleTwoPages_reachable: "reachable exampleTwoPages"
proof -
  have "exampleTwoPages =
      apply_op (AddPage ''Second'' ''s'') ''q'' (constClock 1) (initialState ''p'' ''c'' ''k'' (constClock 0))"
    by (simp add: exampleTwoPages_def exampleState_def)
  moreover have "reachableVia anyOp
      (apply_op (AddPage ''Second'' ''s'') ''q'' (constClock 1) (initialState ''p'' ''c'' ''k'' (constClock 0)))"
    by (rule reachableVia.step [OF reachableVia.initial]) (simp add: anyOp_def)
  ultimately show ?thesis by (simp add: reachable_def)
qed

theorem removePage_active_witness:
  "reachable exampleTwoPages \<and>
   activePageId (workspace exampleTwoPages) = Some ''page-q'' \<and>
   findPage ''page-q'' (workspace exampleTwoPages) = Some (pages (workspace exampleTwoPages) ! 1) \<and>
   map page_id (pages (workspace exampleTwoPages)) = [''page-p'', ''page-q''] \<and>
   map page_id (pages (workspace (removePage ''page-q'' (constClock 2) exampleTwoPages))) = [''page-p''] \<and>
   activePageId (workspace (removePage ''page-q'' (constClock 2) exampleTwoPages)) = Some ''page-p''"
proof -
  have h2: "activePageId (workspace exampleTwoPages) = Some ''page-q''" by code_simp
  have h3: "findPage ''page-q'' (workspace exampleTwoPages) = Some (pages (workspace exampleTwoPages) ! 1)"
    by code_simp
  have before: "map page_id (pages (workspace exampleTwoPages)) = [''page-p'', ''page-q'']"
    by code_simp
  have rest: "map page_id (filter (\<lambda>p. page_id p \<noteq> ''page-q'') (pages (workspace exampleTwoPages))) =
      [''page-p'']"
    by code_simp
  from removePage_active [OF exampleTwoPages_reachable h2 h3, of "constClock 2" "''page-q''" "constClock 2"]
  have eq: "removePage ''page-q'' (constClock 2) exampleTwoPages =
      exampleTwoPages\<lparr>workspace := (workspace exampleTwoPages)
        \<lparr>pages := filter (\<lambda>p. page_id p \<noteq> ''page-q'') (pages (workspace exampleTwoPages)),
         activePageId :=
           (case filter (\<lambda>p. page_id p \<noteq> ''page-q'') (pages (workspace exampleTwoPages)) of
              [] \<Rightarrow> None
            | p # ps \<Rightarrow> Some (page_id p)),
         ws_updatedAt := constClock 2 0\<rparr>\<rparr>"
    by blast
  have after: "map page_id (pages (workspace (removePage ''page-q'' (constClock 2) exampleTwoPages))) =
      [''page-p'']"
    unfolding eq using rest by simp
  have active: "activePageId (workspace (removePage ''page-q'' (constClock 2) exampleTwoPages)) =
      Some ''page-p''"
    unfolding eq using rest by (auto split: list.splits)
  from exampleTwoPages_reachable h2 h3 before after active show ?thesis by blast
qed

subsection \<open>Referential integrity\<close>

lemma list_all_splice_remove: "list_all P xs \<Longrightarrow> list_all P (splice_remove i xs)"
  by (auto simp: splice_remove_def list_all_iff dest: in_set_takeD in_set_dropD)

lemma list_all_splice_insert: "P x \<Longrightarrow> list_all P xs \<Longrightarrow> list_all P (splice_insert t x xs)"
  by (auto simp: splice_insert_def Let_def list_all_iff dest: in_set_takeD in_set_dropD)

lemma refIntegrity_onPage:
  assumes "refIntegrity ws"
    and "\<And>x. page_id x = p \<Longrightarrow> pageIntegrity x \<Longrightarrow> pageIntegrity (f x)"
  shows "refIntegrity (onPage p f ws)"
  using assms by (simp add: refIntegrity_def onPage_def list_all_modify_first)

lemma pageIntegrity_onColumn:
  assumes "pageIntegrity pg"
    and "\<And>x. col_id x = c \<Longrightarrow> columnIntegrity x \<Longrightarrow> columnIntegrity (f x)"
  shows "pageIntegrity (onColumn c f pg)"
  using assms by (simp add: pageIntegrity_def onColumn_def list_all_modify_first)

lemma columnIntegrity_onCard:
  assumes "columnIntegrity col"
    and "\<And>x. card_columnId x = col_id col \<Longrightarrow> card_columnId (f x) = col_id col"
  shows "columnIntegrity (onCard k f col)"
  using assms by (simp add: columnIntegrity_def onCard_def list_all_modify_first)

lemma pageIntegrity_touch:
  "pageIntegrity (pg\<lparr>page_updatedAt := t\<rparr>) = pageIntegrity pg"
  "pageIntegrity (pg\<lparr>page_title := s\<rparr>) = pageIntegrity pg"
  "pageIntegrity (pg\<lparr>page_icon := s\<rparr>) = pageIntegrity pg"
  by (simp_all add: pageIntegrity_def)

lemma columnIntegrity_touch:
  "columnIntegrity (col\<lparr>col_updatedAt := t\<rparr>) = columnIntegrity col"
  "columnIntegrity (col\<lparr>col_title := s\<rparr>) = columnIntegrity col"
  by (simp_all add: columnIntegrity_def)

lemma refIntegrity_touch:
  "refIntegrity (ws\<lparr>ws_updatedAt := t\<rparr>) = refIntegrity ws"
  "refIntegrity (ws\<lparr>ws_title := s\<rparr>) = refIntegrity ws"
  "refIntegrity (ws\<lparr>activePageId := a\<rparr>) = refIntegrity ws"
  by (simp_all add: refIntegrity_def)

lemma refIntegrity_initial: "refIntegrity (workspace (initialState g1 g2 g3 clk))"
  by (simp add: initialState_def createDefaultWorkspace_def Let_def refIntegrity_def
      pageIntegrity_def columnIntegrity_def)

lemma refIntegrity_addPage:
  "refIntegrity (workspace st) \<Longrightarrow> refIntegrity (workspace (addPage title icon g clk st))"
  by (simp add: addPage_def Let_def refIntegrity_def pageIntegrity_def)

lemma refIntegrity_removePage:
  "refIntegrity (workspace st) \<Longrightarrow> refIntegrity (workspace (removePage pageId clk st))"
  by (auto simp: removePage_def Let_def refIntegrity_def list_all_iff)

lemma refIntegrity_renamePage:
  "refIntegrity (workspace st) \<Longrightarrow> refIntegrity (workspace (renamePage pageId title clk st))"
  by (auto simp: renamePage_def refIntegrity_touch pageIntegrity_touch
      intro!: refIntegrity_onPage split: option.splits)

lemma refIntegrity_updatePageIcon:
  "refIntegrity (workspace st) \<Longrightarrow> refIntegrity (workspace (updatePageIcon pageId icon clk st))"
  by (auto simp: updatePageIcon_def refIntegrity_touch pageIntegrity_touch
      intro!: refIntegrity_onPage split: option.splits)

lemma refIntegrity_addColumn:
  "refIntegrity (workspace st) \<Longrightarrow> refIntegrity (workspace (addColumn pageId title g clk st))"
  by (auto simp: addColumn_def Let_def refIntegrity_touch pageIntegrity_def columnIntegrity_def
      intro!: refIntegrity_onPage split: option.splits)

lemma refIntegrity_removeColumn:
  "refIntegrity (workspace st) \<Longrightarrow> refIntegrity (workspace (removeColumn pageId columnId clk st))"
  by (auto simp: removeColumn_def refIntegrity_touch pageIntegrity_def list_all_iff
      intro!: refIntegrity_onPage split: option.splits)

lemma refIntegrity_renameColumn:
  "refIntegrity (workspace st) \<Longrightarrow> refIntegrity (workspace (renameColumn pageId columnId title clk st))"
  by (auto simp: renameColumn_def refIntegrity_touch pageIntegrity_touch columnIntegrity_touch
      intro!: refIntegrity_onPage pageIntegrity_onColumn split: option.splits)

lemma refIntegrity_moveColumn:
  assumes "refIntegrity (workspace st)"
  shows "refIntegrity (workspace (moveColumn pageId columnId targetIndex clk st))"
proof (cases "findPage pageId (workspace st)")
  case None
  then show ?thesis using assms by (simp add: moveColumn_def)
next
  case (Some pg)
  show ?thesis
  proof (cases "findIndex (\<lambda>col. col_id col = columnId) (columns (page_board pg))")
    case None
    with Some show ?thesis using assms by (simp add: moveColumn_def)
  next
    case (Some i)
    let ?cols = "columns (page_board pg)"
    let ?pg' = "pg\<lparr>page_board := \<lparr>columns = splice_insert targetIndex (?cols ! i) (splice_remove i ?cols)\<rparr>,
                   page_updatedAt := clk 0\<rparr>"
    have "pg \<in> set (pages (workspace st))"
      using \<open>findPage pageId (workspace st) = Some pg\<close> unfolding findPage_def by (rule find_Some_mem)
    with assms have all: "list_all columnIntegrity ?cols"
      by (simp add: refIntegrity_def pageIntegrity_def list_all_iff)
    from findIndex_Some [OF Some] have "i < length ?cols" by simp
    with all have "columnIntegrity (?cols ! i)" by (simp add: list_all_length)
    with all have "pageIntegrity ?pg'"
      by (simp add: pageIntegrity_def list_all_splice_insert list_all_splice_remove)
    with assms have "refIntegrity (onPage pageId (\<lambda>x. ?pg') (workspace st))"
      by (intro refIntegrity_onPage)
    then show ?thesis
      by (simp add: moveColumn_found [OF \<open>findPage pageId (workspace st) = Some pg\<close> Some]
          refIntegrity_touch)
  qed
qed

lemma refIntegrity_addCard:
  "refIntegrity (workspace st) \<Longrightarrow>
   refIntegrity (workspace (addCard pageId columnId title description g clk st))"
  by (auto simp: addCard_def Let_def refIntegrity_touch pageIntegrity_touch columnIntegrity_def
      intro!: refIntegrity_onPage pageIntegrity_onColumn split: option.splits)

lemma refIntegrity_removeCard:
  "refIntegrity (workspace st) \<Longrightarrow>
   refIntegrity (workspace (removeCard pageId columnId cardId clk st))"
  by (auto simp: removeCard_def refIntegrity_touch pageIntegrity_touch columnIntegrity_def list_all_iff
      intro!: refIntegrity_onPage pageIntegrity_onColumn split: option.splits)

lemma refIntegrity_updateCard:
  assumes "refIntegrity (workspace st)"
    and "u_columnId updates = None \<or> u_columnId updates = Some columnId"
  shows "refIntegrity (workspace (updateCard pageId columnId cardId updates clk st))"
proof -
  have "columnIntegrity
      ((onCard cardId (\<lambda>k. assignCard k updates (clk 0)) x)\<lparr>col_updatedAt := t\<rparr>)"
    if "col_id x = columnId" "columnIntegrity x" for x t
    unfolding columnIntegrity_touch
    using that assms(2)
    by (intro columnIntegrity_onCard) (auto simp: assignCard_def assignField_def)
  then show ?thesis
    using assms(1)
    by (auto simp: updateCard_def refIntegrity_touch pageIntegrity_touch
        intro!: refIntegrity_onPage pageIntegrity_onColumn split: option.splits)
qed

lemma refIntegrity_removeFromSource:
  "refIntegrity ws \<Longrightarrow> refIntegrity (fst (removeFromSource src clk ws))"
  by (auto simp: removeFromSource_def pageIntegrity_touch columnIntegrity_def
      list_all_splice_remove
      intro!: refIntegrity_onPage pageIntegrity_onColumn split: option.splits)

lemma refIntegrity_addToTarget:
  "refIntegrity ws \<Longrightarrow> refIntegrity (addToTarget k tgt clk ws)"
  by (auto simp: addToTarget_def Let_def pageIntegrity_touch columnIntegrity_def
      list_all_splice_insert
      intro!: refIntegrity_onPage pageIntegrity_onColumn split: option.splits)

lemma refIntegrity_moveCard:
  assumes "refIntegrity (workspace st)"
  shows "refIntegrity (workspace (moveCard src tgt clk st))"
proof (cases "removeFromSource src clk (workspace st)")
  case (Pair ws1 moved)
  with refIntegrity_removeFromSource [OF assms, of src clk] have "refIntegrity ws1" by simp
  then show ?thesis
    using Pair by (simp add: moveCard_def refIntegrity_touch refIntegrity_addToTarget
        split: option.splits)
qed

lemma refIntegrity_apply_op:
  assumes "refIntegrity (workspace st)" and "keepsColumnId opn"
  shows "refIntegrity (workspace (apply_op opn g clk st))"
  using assms
  by (cases opn)
     (simp_all add: refIntegrity_addPage refIntegrity_removePage refIntegrity_renamePage
       refIntegrity_updatePageIcon refIntegrity_addColumn refIntegrity_removeColumn
       refIntegrity_renameColumn refIntegrity_moveColumn refIntegrity_addCard
       refIntegrity_removeCard refIntegrity_updateCard refIntegrity_moveCard
       setWorkspaceTitle_def setActivePage_def setSelectedCardId_def refIntegrity_touch)

text \<open>
  Claim C2, as the code has it. In every state that the store reaches from the default
  workspace by operations in which no \<open>updateCard\<close> carries a \<open>columnId\<close> other than the
  id of the column it addresses, every card held by a column has that column's id as its
  \<open>columnId\<close>.
\<close>

theorem refIntegrity_reachable:
  assumes "reachableVia keepsColumnId st"
  shows "refIntegrity (workspace st)"
  using assms
proof (induction rule: reachableVia.induct)
  case (initial g1 g2 g3 clk)
  show ?case by (rule refIntegrity_initial)
next
  case (step st opn g clk)
  then show ?case by (simp add: refIntegrity_apply_op)
qed


theorem refIntegrity_reachable_witness:
  "reachableVia keepsColumnId exampleMoved \<and>
   refIntegrity (workspace exampleMoved) \<and>
   map (\<lambda>c. (col_id c, map card_columnId (col_cards c)))
     (allColumns (pages (workspace exampleMoved))) = [(''col-c'', []), (''col-d'', [''col-d''])]"
proof -
  have "exampleMoved =
      apply_op (MoveCard \<lparr>src_pageId = ''page-p'', src_columnId = ''col-c'', src_cardId = ''card-k''\<rparr>
                  \<lparr>tgt_pageId = ''page-p'', tgt_columnId = ''col-d'', tgt_index = None\<rparr>) [] (constClock 2)
        (apply_op (AddColumn ''page-p'' ''Doing'') ''d'' (constClock 1)
          (initialState ''p'' ''c'' ''k'' (constClock 0)))"
    by (simp add: exampleMoved_def exampleBoard_def exampleState_def)
  moreover have "reachableVia keepsColumnId
      (apply_op (MoveCard \<lparr>src_pageId = ''page-p'', src_columnId = ''col-c'', src_cardId = ''card-k''\<rparr>
                  \<lparr>tgt_pageId = ''page-p'', tgt_columnId = ''col-d'', tgt_index = None\<rparr>) [] (constClock 2)
        (apply_op (AddColumn ''page-p'' ''Doing'') ''d'' (constClock 1)
          (initialState ''p'' ''c'' ''k'' (constClock 0))))"
    by (intro reachableVia.step reachableVia.initial) simp_all
  ultimately have r: "reachableVia keepsColumnId exampleMoved" by simp
  have e: "map (\<lambda>c. (col_id c, map card_columnId (col_cards c)))
     (allColumns (pages (workspace exampleMoved))) = [(''col-c'', []), (''col-d'', [''col-d''])]"
    by code_simp
  from r refIntegrity_reachable [OF r] e show ?thesis by blast
qed

text \<open>
  One \<open>updateCard\<close> with \<open>{ columnId: 'col-z' }\<close> on the default workspace leaves the card
  in column \<open>col-c\<close> with \<open>columnId\<close> \<open>col-z\<close>.
\<close>

theorem refIntegrity_updateCard_counterexample:
  "reachable exampleDrift \<and> \<not> refIntegrity (workspace exampleDrift)"
proof -
  have "exampleDrift =
      apply_op (UpdateCard ''page-p'' ''col-c'' ''card-k'' (noUpdates\<lparr>u_columnId := Some ''col-z''\<rparr>))
        [] (constClock 1) (initialState ''p'' ''c'' ''k'' (constClock 0))"
    by (simp add: exampleDrift_def exampleState_def)
  moreover have "reachableVia anyOp
      (apply_op (UpdateCard ''page-p'' ''col-c'' ''card-k'' (noUpdates\<lparr>u_columnId := Some ''col-z''\<rparr>))
        [] (constClock 1) (initialState ''p'' ''c'' ''k'' (constClock 0)))"
    by (rule reachableVia.step [OF reachableVia.initial]) (simp add: anyOp_def)
  ultimately have "reachable exampleDrift" by (simp add: reachable_def)
  moreover have "\<not> refIntegrity (workspace exampleDrift)" by code_simp
  ultimately show ?thesis by blast
qed

end
